theory Spec2Isabelle
  imports Complex_Main "HOL-Library.Log_Nat"
begin

section \<open>Data model of the battle simulator (test.py)\<close>

text \<open>
  The embedding follows \<^verbatim>\<open>src/test.py\<close>. Python's unbounded \<^verbatim>\<open>int\<close> is \<^typ>\<open>int\<close>.
  Python's \<^verbatim>\<open>float\<close> is an IEEE 754 binary64 number: a finite double is the real
  number it denotes, and every arithmetic step rounds its exact result to the nearest
  double, ties to even (section on floats below). Exceptions are values of
  \<open>py_error\<close>. The random module is replaced by the values its calls return, passed
  in as arguments: \<open>roll\<close> is what \<^verbatim>\<open>random.random()\<close> returns, \<open>factor\<close> what
  \<^verbatim>\<open>random.uniform(0.85, 1.0)\<close> returns, and \<open>k\<close> the number from which
  \<^verbatim>\<open>random.choice\<close> takes its index.
\<close>

datatype PokemonType = FIRE | WATER | GRASS | ELECTRIC | NORMAL

datatype py_error =
  ZeroDivisionError | OverflowError | ValueError | KeyError | IndexError | AttributeError

record Move =
  move_name :: string
  power :: int
  move_type :: PokemonType
  accuracy :: real

record Pokemon =
  name :: string
  pokemon_type :: PokemonType
  max_hp :: int
  current_hp :: int
  attack :: int
  defense :: int
  speed :: int
  moves :: "Move list"

section \<open>Python floats\<close>

text \<open>
  A float is a finite double, an infinity or a NaN. The sign of zero is not kept: no
  operation used here tells the two zeros apart.
\<close>

datatype pyfloat = Fin real | PInf | NInf | NaN

definition pow2 :: "int \<Rightarrow> real" where
  "pow2 e = (if 0 \<le> e then 2 ^ nat e else 1 / 2 ^ nat (- e))"

text \<open>The binary exponent of a non-zero real: \<open>pow2 (expo x) \<le> \<bar>x\<bar> < pow2 (expo x + 1)\<close>.\<close>

definition expo :: "real \<Rightarrow> int" where
  "expo x =
     (if 1 \<le> \<bar>x\<bar> then bitlen \<lfloor>\<bar>x\<bar>\<rfloor> - 1 else - bitlen (\<lceil>1 / \<bar>x\<bar>\<rceil> - 1))"

definition round_half_even :: "real \<Rightarrow> int" where
  "round_half_even x =
     (let f = \<lfloor>x\<rfloor>; r = x - of_int f
      in if r < 1/2 then f else if 1/2 < r then f + 1 else if even f then f else f + 1)"

text \<open>
  Rounding to binary64: 53 significant bits, exponents from -1022 (below which the
  spacing stays that of the subnormals, \<open>pow2 (- 1074)\<close>) to 1023. \<open>ulp_of x\<close> is the
  spacing of the doubles around \<open>x\<close>, \<open>nearest x\<close> the multiple of it nearest to \<open>x\<close>,
  ties to the even multiple; a result of magnitude \<open>2 ^ 1024\<close> or more is an infinity.
\<close>

definition ulp_of :: "real \<Rightarrow> real" where
  "ulp_of x = pow2 (max (expo x) (- 1022) - 52)"

definition nearest :: "real \<Rightarrow> real" where
  "nearest x = of_int (round_half_even (x / ulp_of x)) * ulp_of x"

definition fl :: "real \<Rightarrow> pyfloat" where
  "fl x =
     (if x = 0 then Fin 0
      else if 2 ^ 1024 \<le> nearest x then PInf
      else if nearest x \<le> - (2 ^ 1024) then NInf
      else Fin (nearest x))"

text \<open>A float literal of the source, such as \<^verbatim>\<open>0.9\<close>: the double nearest to the decimal.\<close>

definition literal :: "real \<Rightarrow> real" where
  "literal x = (case fl x of Fin r \<Rightarrow> r | _ \<Rightarrow> 0)"

text \<open>
  Conversion of an int to float (as in \<^verbatim>\<open>x * move.power\<close> and \<^verbatim>\<open>x + 2\<close>) and true
  division \<^verbatim>\<open>a / b\<close> of two ints: both are correctly rounded and raise OverflowError
  where a float operation would give an infinity.
\<close>

definition int_to_float :: "int \<Rightarrow> py_error + pyfloat" where
  "int_to_float n =
     (case fl (real_of_int n) of
        Fin r \<Rightarrow> Inr (Fin r)
      | _ \<Rightarrow> Inl OverflowError)"

definition int_truediv :: "int \<Rightarrow> int \<Rightarrow> py_error + pyfloat" where
  "int_truediv a b =
     (if b = 0 then Inl ZeroDivisionError
      else
        (case fl (real_of_int a / real_of_int b) of
           Fin r \<Rightarrow> Inr (Fin r)
         | _ \<Rightarrow> Inl OverflowError))"

text \<open>Float product and sum: no exception, overflow gives an infinity.\<close>

fun fmul :: "pyfloat \<Rightarrow> pyfloat \<Rightarrow> pyfloat" where
  "fmul (Fin a) (Fin b) = fl (a * b)"
| "fmul NaN _ = NaN"
| "fmul _ NaN = NaN"
| "fmul PInf (Fin b) = (if b = 0 then NaN else if 0 < b then PInf else NInf)"
| "fmul NInf (Fin b) = (if b = 0 then NaN else if 0 < b then NInf else PInf)"
| "fmul (Fin a) PInf = (if a = 0 then NaN else if 0 < a then PInf else NInf)"
| "fmul (Fin a) NInf = (if a = 0 then NaN else if 0 < a then NInf else PInf)"
| "fmul PInf PInf = PInf"
| "fmul PInf NInf = NInf"
| "fmul NInf PInf = NInf"
| "fmul NInf NInf = PInf"

fun fadd :: "pyfloat \<Rightarrow> pyfloat \<Rightarrow> pyfloat" where
  "fadd (Fin a) (Fin b) = fl (a + b)"
| "fadd NaN _ = NaN"
| "fadd _ NaN = NaN"
| "fadd PInf NInf = NaN"
| "fadd NInf PInf = NaN"
| "fadd PInf _ = PInf"
| "fadd NInf _ = NInf"
| "fadd _ PInf = PInf"
| "fadd _ NInf = NInf"

text \<open>
  \<^verbatim>\<open>int(x)\<close> on a float truncates towards zero; an infinity raises OverflowError and a
  NaN raises ValueError.
\<close>

definition py_int :: "pyfloat \<Rightarrow> py_error + int" where
  "py_int x =
     (case x of
        Fin r \<Rightarrow> Inr (if 0 \<le> r then \<lfloor>r\<rfloor> else \<lceil>r\<rceil>)
      | PInf \<Rightarrow> Inl OverflowError
      | NInf \<Rightarrow> Inl OverflowError
      | NaN \<Rightarrow> Inl ValueError)"

text \<open>Sequencing of computations that may raise.\<close>

definition bind_err :: "'e + 'a \<Rightarrow> ('a \<Rightarrow> 'e + 'b) \<Rightarrow> 'e + 'b" where
  "bind_err r f = (case r of Inl e \<Rightarrow> Inl e | Inr x \<Rightarrow> f x)"

section \<open>Combatants\<close>

text \<open>\<^verbatim>\<open>Pokemon.__init__\<close>: no argument is validated; \<open>current_hp\<close> starts at \<open>hp\<close>.\<close>

definition new_Pokemon ::
  "string \<Rightarrow> PokemonType \<Rightarrow> int \<Rightarrow> int \<Rightarrow> int \<Rightarrow> int \<Rightarrow> Move list \<Rightarrow> Pokemon" where
  "new_Pokemon n t hp a d sp ms =
     \<lparr>name = n, pokemon_type = t, max_hp = hp, current_hp = hp,
      attack = a, defense = d, speed = sp, moves = ms\<rparr>"

definition is_alive :: "Pokemon \<Rightarrow> bool" where
  "is_alive p = (current_hp p > 0)"

definition take_damage :: "Pokemon \<Rightarrow> int \<Rightarrow> Pokemon" where
  "take_damage p damage = p\<lparr>current_hp := max 0 (current_hp p - damage)\<rparr>"

definition heal :: "Pokemon \<Rightarrow> int \<Rightarrow> Pokemon" where
  "heal p amount = p\<lparr>current_hp := min (max_hp p) (current_hp p + amount)\<rparr>"

definition get_hp_percentage :: "Pokemon \<Rightarrow> py_error + pyfloat" where
  "get_hp_percentage p =
     bind_err (int_truediv (current_hp p) (max_hp p)) (\<lambda>q.
     bind_err (int_to_float 100) (\<lambda>hundred.
       Inr (fmul q hundred)))"

subsection \<open>Type effectiveness\<close>

text \<open>The nested dictionary \<^verbatim>\<open>TypeEffectiveness.CHART\<close>, entry by entry in source order.\<close>

definition CHART :: "(PokemonType \<times> (PokemonType \<times> real) list) list" where
  "CHART =
    [(FIRE,     [(GRASS, 2.0), (WATER, 0.5), (FIRE, 0.5), (ELECTRIC, 1.0), (NORMAL, 1.0)]),
     (WATER,    [(FIRE, 2.0), (GRASS, 0.5), (WATER, 0.5), (ELECTRIC, 1.0), (NORMAL, 1.0)]),
     (GRASS,    [(WATER, 2.0), (FIRE, 0.5), (GRASS, 0.5), (ELECTRIC, 1.0), (NORMAL, 1.0)]),
     (ELECTRIC, [(WATER, 2.0), (GRASS, 0.5), (FIRE, 1.0), (ELECTRIC, 0.5), (NORMAL, 1.0)]),
     (NORMAL,   [(FIRE, 1.0), (WATER, 1.0), (GRASS, 1.0), (ELECTRIC, 1.0), (NORMAL, 1.0)])]"

text \<open>\<^verbatim>\<open>cls.CHART[attacking_type][defending_type]\<close>: a missing key raises KeyError.\<close>

definition get_multiplier :: "PokemonType \<Rightarrow> PokemonType \<Rightarrow> py_error + real" where
  "get_multiplier attacking_type defending_type =
     (case map_of CHART attacking_type of
        None \<Rightarrow> Inl KeyError
      | Some row \<Rightarrow>
          (case map_of row defending_type of
             None \<Rightarrow> Inl KeyError
           | Some v \<Rightarrow> Inr v))"

text \<open>The chart as a total function: the 25 entries, row by row.\<close>

definition chart_value :: "PokemonType \<Rightarrow> PokemonType \<Rightarrow> real" where
  "chart_value a d =
     (case a of
        FIRE \<Rightarrow> (case d of GRASS \<Rightarrow> 2 | WATER \<Rightarrow> 1/2 | FIRE \<Rightarrow> 1/2 | _ \<Rightarrow> 1)
      | WATER \<Rightarrow> (case d of FIRE \<Rightarrow> 2 | GRASS \<Rightarrow> 1/2 | WATER \<Rightarrow> 1/2 | _ \<Rightarrow> 1)
      | GRASS \<Rightarrow> (case d of WATER \<Rightarrow> 2 | FIRE \<Rightarrow> 1/2 | GRASS \<Rightarrow> 1/2 | _ \<Rightarrow> 1)
      | ELECTRIC \<Rightarrow> (case d of WATER \<Rightarrow> 2 | GRASS \<Rightarrow> 1/2 | ELECTRIC \<Rightarrow> 1/2 | _ \<Rightarrow> 1)
      | NORMAL \<Rightarrow> 1)"

subsection \<open>Damage computation\<close>

text \<open>
  \<^verbatim>\<open>PokemonGUI.calculate_damage\<close>. Operands are evaluated left to right: the constant
  quotient, then \<^verbatim>\<open>attacker.attack / defender.defense\<close> (ZeroDivisionError for a zero
  divisor, OverflowError for a quotient too large), then the conversion of \<^verbatim>\<open>move.power\<close>.
  The accuracy, the roll, the chart entries and the random factor are finite floats.
\<close>

definition calculate_damage ::
  "Pokemon \<Rightarrow> Pokemon \<Rightarrow> Move \<Rightarrow> real \<Rightarrow> real \<Rightarrow> py_error + int" where
  "calculate_damage attacker defender move roll factor =
     (if power move = 0 then Inr 0
      else if roll > accuracy move then Inr 0
      else
        bind_err (int_truediv (2 * 50 + 10) 250) (\<lambda>c.
        bind_err (int_truediv (attack attacker) (defense defender)) (\<lambda>q.
        bind_err (int_to_float (power move)) (\<lambda>pw.
        bind_err (int_to_float 2) (\<lambda>two.
          (let base_damage = fadd (fmul (fmul c q) pw) two
           in bind_err (get_multiplier (move_type move) (pokemon_type defender))
                (\<lambda>type_multiplier.
                  (let random_factor = Fin factor;
                       stab = Fin (if move_type move = pokemon_type attacker
                                   then 1.5 else 1.0)
                   in bind_err
                        (py_int (fmul (fmul (fmul base_damage (Fin type_multiplier))
                                         random_factor) stab))
                        (\<lambda>final_damage. Inr (max 1 final_damage))))))))))"

subsection \<open>The roster of \<^verbatim>\<open>_create_pokemon_roster\<close>\<close>

definition new_Move :: "string \<Rightarrow> int \<Rightarrow> PokemonType \<Rightarrow> real \<Rightarrow> Move" where
  "new_Move n p t acc = \<lparr>move_name = n, power = p, move_type = t, accuracy = acc\<rparr>"

definition moves_fire :: "Move list" where
  "moves_fire =
     [new_Move ''Ember'' 40 FIRE 1.0,
      new_Move ''Flamethrower'' 90 FIRE (literal 0.9),
      new_Move ''Tackle'' 40 NORMAL 1.0,
      new_Move ''Quick Attack'' 30 NORMAL 1.0]"

definition moves_water :: "Move list" where
  "moves_water =
     [new_Move ''Water Gun'' 40 WATER 1.0,
      new_Move ''Hydro Pump'' 110 WATER (literal 0.8),
      new_Move ''Tackle'' 40 NORMAL 1.0,
      new_Move ''Bite'' 60 NORMAL 1.0]"

definition moves_grass :: "Move list" where
  "moves_grass =
     [new_Move ''Vine Whip'' 45 GRASS 1.0,
      new_Move ''Solar Beam'' 120 GRASS (literal 0.85),
      new_Move ''Tackle'' 40 NORMAL 1.0,
      new_Move ''Sleep Powder'' 0 GRASS (literal 0.75)]"

definition moves_electric :: "Move list" where
  "moves_electric =
     [new_Move ''Thunder Shock'' 40 ELECTRIC 1.0,
      new_Move ''Thunderbolt'' 90 ELECTRIC (literal 0.9),
      new_Move ''Quick Attack'' 30 NORMAL 1.0,
      new_Move ''Thunder Wave'' 0 ELECTRIC (literal 0.9)]"

definition moves_normal :: "Move list" where
  "moves_normal =
     [new_Move ''Tackle'' 40 NORMAL 1.0,
      new_Move ''Hyper Beam'' 150 NORMAL (literal 0.9),
      new_Move ''Quick Attack'' 30 NORMAL 1.0,
      new_Move ''Body Slam'' 85 NORMAL (literal 0.85)]"

definition create_pokemon_roster :: "Pokemon list" where
  "create_pokemon_roster =
     [new_Pokemon ''Charmander'' FIRE 100 85 70 90 moves_fire,
      new_Pokemon ''Squirtle'' WATER 110 75 85 70 moves_water,
      new_Pokemon ''Bulbasaur'' GRASS 105 80 80 75 moves_grass,
      new_Pokemon ''Pikachu'' ELECTRIC 90 90 60 110 moves_electric,
      new_Pokemon ''Eevee'' NORMAL 95 75 75 85 moves_normal]"

subsection \<open>The damage formula as the specification words it\<close>

text \<open>
  Steps 3 to 7 of the specification's damage resolution, read in exact arithmetic:
  the effectiveness is the chart entry for the move's type against the defender's type.
\<close>

definition spec_base :: "Pokemon \<Rightarrow> Pokemon \<Rightarrow> Move \<Rightarrow> real" where
  "spec_base attacker defender move =
     ((2 * 50 + 10) / 250) * (real_of_int (attack attacker) / real_of_int (defense defender))
       * real_of_int (power move) + 2"

definition spec_stab :: "Pokemon \<Rightarrow> Move \<Rightarrow> real" where
  "spec_stab attacker move = (if move_type move = pokemon_type attacker then 1.5 else 1.0)"

definition spec_product :: "Pokemon \<Rightarrow> Pokemon \<Rightarrow> Move \<Rightarrow> real \<Rightarrow> real" where
  "spec_product attacker defender move variance =
     spec_base attacker defender move * spec_stab attacker move
       * chart_value (move_type move) (pokemon_type defender) * variance"

definition spec_damage :: "Pokemon \<Rightarrow> Pokemon \<Rightarrow> Move \<Rightarrow> real \<Rightarrow> int" where
  "spec_damage attacker defender move variance =
     max 1 \<lfloor>spec_product attacker defender move variance\<rfloor>"

text \<open>
  The same steps in double precision: every quotient, product and sum is rounded to
  the nearest double, the factors are applied in the order base, effectiveness,
  variance, same-type bonus, and a value that leaves the range of the doubles is an
  error.
\<close>

definition spec_base_double :: "Pokemon \<Rightarrow> Pokemon \<Rightarrow> Move \<Rightarrow> py_error + pyfloat" where
  "spec_base_double attacker defender move =
     bind_err (int_truediv (2 * 50 + 10) 250) (\<lambda>c.
     bind_err (int_truediv (attack attacker) (defense defender)) (\<lambda>q.
     bind_err (int_to_float (power move)) (\<lambda>pw.
     bind_err (int_to_float 2) (\<lambda>two.
       Inr (fadd (fmul (fmul c q) pw) two)))))"

definition spec_product_double :: "pyfloat \<Rightarrow> real \<Rightarrow> real \<Rightarrow> real \<Rightarrow> pyfloat" where
  "spec_product_double base effectiveness variance stab =
     fmul (fmul (fmul base (Fin effectiveness)) (Fin variance)) (Fin stab)"

definition spec_damage_double :: "Pokemon \<Rightarrow> Pokemon \<Rightarrow> Move \<Rightarrow> real \<Rightarrow> py_error + int" where
  "spec_damage_double attacker defender move variance =
     bind_err (spec_base_double attacker defender move) (\<lambda>base.
     bind_err (py_int (spec_product_double base
                         (chart_value (move_type move) (pokemon_type defender))
                         variance (spec_stab attacker move))) (\<lambda>d.
       Inr (max 1 d)))"

text \<open>Combatants and moves of the worked examples.\<close>

definition fire_attacker :: Pokemon where
  "fire_attacker = new_Pokemon ''Charmander'' FIRE 100 85 70 90 moves_fire"

definition grass_defender :: Pokemon where
  "grass_defender = new_Pokemon ''Grass target'' GRASS 105 80 70 75 moves_grass"

definition water_defender :: Pokemon where
  "water_defender = new_Pokemon ''Water target'' WATER 110 75 70 70 moves_water"

definition normal_defender :: Pokemon where
  "normal_defender = new_Pokemon ''Eevee'' NORMAL 95 75 75 85 moves_normal"

definition zero_defense_defender :: Pokemon where
  "zero_defense_defender = new_Pokemon ''Glass'' WATER 110 75 0 70 moves_water"

definition grass_attacker :: Pokemon where
  "grass_attacker = new_Pokemon ''Bulbasaur'' GRASS 105 80 80 75 moves_grass"

definition water_attacker :: Pokemon where
  "water_attacker = new_Pokemon ''Squirtle'' WATER 110 75 85 70 moves_water"

definition sturdy_water_defender :: Pokemon where
  "sturdy_water_defender = new_Pokemon ''Water target'' WATER 110 75 88 70 moves_water"

definition solar_beam :: Move where
  "solar_beam = new_Move ''Solar Beam'' 120 GRASS (literal 0.85)"

definition hydro_pump :: Move where
  "hydro_pump = new_Move ''Hydro Pump'' 110 WATER (literal 0.8)"

definition flamethrower :: Move where
  "flamethrower = new_Move ''Flamethrower'' 90 FIRE (literal 0.9)"

definition tackle :: Move where
  "tackle = new_Move ''Tackle'' 40 NORMAL 1.0"

definition ember :: Move where
  "ember = new_Move ''Ember'' 40 FIRE 1.0"


section \<open>The battle GUI as a state machine\<close>

text \<open>
  Pokemon objects are mutable and shared by reference, so they live in a store
  \<open>heap\<close> from references to records; a Python variable that may be \<^verbatim>\<open>None\<close> is a
  \<open>ref option\<close>, and reading an attribute through \<^verbatim>\<open>None\<close> raises AttributeError.
  Of the tkinter widgets only the battle log and the timers set with
  \<^verbatim>\<open>root.after\<close> are kept, together with the exceptions that widget code can raise;
  labels, bars, button states and message boxes are presentation and are left out.
  A log line is kept as the format string used (one constructor each) with the values
  substituted into it.
\<close>

type_synonym ref = nat

datatype message =
    Uses string string
  | Missed string
  | NoEffect string
  | TakesDamage string int
  | SuperEffective
  | NotVeryEffective
  | BattleBegins string string
  | SpeedCheck string int string int
  | YouGoFirst
  | EnemyGoesFirst
  | Wins string
  | Fainted string

datatype callback = AiTurn

record gui =
  heap :: "ref \<Rightarrow> Pokemon"
  next_ref :: ref
  player_pokemon :: "ref option"
  enemy_pokemon :: "ref option"
  battle_active :: bool
  player_turn :: bool
  pokemon_roster :: "Pokemon list"
  battle_log :: "message list"
  timers :: "(nat \<times> callback) list"

text \<open>
  A call either returns or raises; in both cases the mutations made so far persist, so
  both outcomes carry the state.
\<close>

datatype outcome = Return gui | Raise py_error gui

fun state_of :: "outcome \<Rightarrow> gui" where
  "state_of (Return s) = s"
| "state_of (Raise e s) = s"

definition and_then :: "outcome \<Rightarrow> (gui \<Rightarrow> outcome) \<Rightarrow> outcome" where
  "and_then r f = (case r of Return s \<Rightarrow> f s | Raise e s \<Rightarrow> Raise e s)"

definition log_message :: "gui \<Rightarrow> message \<Rightarrow> gui" where
  "log_message s message = s\<lparr>battle_log := battle_log s @ [message]\<rparr>"

definition after :: "gui \<Rightarrow> nat \<Rightarrow> callback \<Rightarrow> gui" where
  "after s ms cb = s\<lparr>timers := timers s @ [(ms, cb)]\<rparr>"

text \<open>
  \<^verbatim>\<open>random.choice(seq)\<close>: IndexError on an empty sequence, otherwise the element at a
  random index below \<^verbatim>\<open>len(seq)\<close>. The injected number \<open>k\<close> is reduced to that range; for
  \<open>k < length seq\<close> it is the index itself.
\<close>

definition random_choice :: "'a list \<Rightarrow> nat \<Rightarrow> py_error + 'a" where
  "random_choice seq k =
     (if seq = [] then Inl IndexError else Inr (seq ! (k mod length seq)))"

text \<open>
  \<^verbatim>\<open>update_hp_display\<close>: the only effect kept is the exception of
  \<^verbatim>\<open>get_hp_percentage\<close> for a combatant whose \<open>max_hp\<close> is 0.
\<close>

definition update_hp_display :: "gui \<Rightarrow> outcome" where
  "update_hp_display s =
     (case (case player_pokemon s of
              None \<Rightarrow> Inr (Fin 0)
            | Some p \<Rightarrow> get_hp_percentage (heap s p)) of
        Inl e \<Rightarrow> Raise e s
      | Inr _ \<Rightarrow>
          (case (case enemy_pokemon s of
                   None \<Rightarrow> Inr (Fin 0)
                 | Some e \<Rightarrow> get_hp_percentage (heap s e)) of
             Inl e \<Rightarrow> Raise e s
           | Inr _ \<Rightarrow> Return s))"

text \<open>
  \<^verbatim>\<open>update_move_buttons\<close>: there are four move buttons (\<^verbatim>\<open>range(4)\<close> in
  \<^verbatim>\<open>setup_control_area\<close>), and \<^verbatim>\<open>self.move_buttons[i]\<close> raises IndexError for a fifth move.
\<close>

definition update_move_buttons :: "gui \<Rightarrow> outcome" where
  "update_move_buttons s =
     (case player_pokemon s of
        None \<Rightarrow> Return s
      | Some p \<Rightarrow>
          if \<not> battle_active s \<or> \<not> player_turn s then Return s
          else if length (moves (heap s p)) > 4 then Raise IndexError s
          else Return s)"

text \<open>
  \<^verbatim>\<open>calculate_damage\<close> called on two variables that may be \<^verbatim>\<open>None\<close>: the first attribute
  read is \<^verbatim>\<open>attacker.attack\<close>, after the power test and the accuracy roll.
\<close>

definition calculate_damage_on ::
  "gui \<Rightarrow> ref option \<Rightarrow> ref option \<Rightarrow> Move \<Rightarrow> real \<Rightarrow> real \<Rightarrow> py_error + int" where
  "calculate_damage_on s attacker defender move roll factor =
     (case (attacker, defender) of
        (Some a, Some d) \<Rightarrow> calculate_damage (heap s a) (heap s d) move roll factor
      | _ \<Rightarrow>
          if power move = 0 then Inr 0
          else if roll > accuracy move then Inr 0
          else Inl AttributeError)"

text \<open>\<^verbatim>\<open>PokemonGUI.execute_move\<close>.\<close>

definition execute_move ::
  "gui \<Rightarrow> ref option \<Rightarrow> ref option \<Rightarrow> Move \<Rightarrow> bool \<Rightarrow> real \<Rightarrow> real \<Rightarrow> outcome" where
  "execute_move s attacker defender move is_player roll factor =
     (case calculate_damage_on s attacker defender move roll factor of
        Inl e \<Rightarrow> Raise e s
      | Inr damage \<Rightarrow>
          (case attacker of
             None \<Rightarrow> Raise AttributeError s
           | Some a \<Rightarrow>
               (let attacker_name =
                      (if is_player then name (heap s a) else ''Enemy '' @ name (heap s a))
                in if damage = 0 \<and> power move > 0 then
                     Return (log_message
                               (log_message s (Uses attacker_name (move_name move)))
                               (Missed (move_name move)))
                   else if damage = 0 then
                     Return (log_message
                               (log_message s (Uses attacker_name (move_name move)))
                               (NoEffect (move_name move)))
                   else
                     (case defender of
                        None \<Rightarrow> Raise AttributeError s
                      | Some d \<Rightarrow>
                          (let s1 = s\<lparr>heap := (heap s)(d := take_damage (heap s d) damage)\<rparr>
                           in case get_multiplier (move_type move) (pokemon_type (heap s1 d)) of
                                Inl e \<Rightarrow> Raise e s1
                              | Inr effectiveness \<Rightarrow>
                                  (let s2 = log_message s1 (Uses attacker_name (move_name move));
                                       s3 = log_message s2 (TakesDamage (name (heap s2 d)) damage);
                                       s4 = (if effectiveness > 1.0
                                               then log_message s3 SuperEffective
                                             else if effectiveness < 1.0
                                               then log_message s3 NotVeryEffective
                                             else s3)
                                   in update_hp_display s4))))))"

text \<open>\<^verbatim>\<open>PokemonGUI.end_battle\<close>.\<close>

definition end_battle :: "gui \<Rightarrow> bool \<Rightarrow> outcome" where
  "end_battle s player_won =
     (let s1 = s\<lparr>battle_active := False\<rparr>
      in case player_pokemon s1 of
           None \<Rightarrow> Raise AttributeError s1
         | Some p \<Rightarrow>
             if player_won then Return (log_message s1 (Wins (name (heap s1 p))))
             else Return (log_message s1 (Fainted (name (heap s1 p)))))"

text \<open>\<^verbatim>\<open>PokemonGUI.use_move\<close>.\<close>

definition use_move :: "gui \<Rightarrow> Move \<Rightarrow> real \<Rightarrow> real \<Rightarrow> outcome" where
  "use_move s move roll factor =
     (if \<not> battle_active s \<or> \<not> player_turn s then Return s
      else
        and_then (execute_move s (player_pokemon s) (enemy_pokemon s) move True roll factor)
          (\<lambda>s1. case enemy_pokemon s1 of
                   None \<Rightarrow> Raise AttributeError s1
                 | Some e \<Rightarrow>
                     if \<not> is_alive (heap s1 e) then end_battle s1 True
                     else Return (after (s1\<lparr>player_turn := False\<rparr>) 1500 AiTurn)))"

text \<open>
  The loop of \<^verbatim>\<open>ai_turn\<close> over the enemy's moves, with the pair
  \<^verbatim>\<open>(best_effectiveness, best_moves)\<close> as accumulator; \<open>t\<close> is
  \<^verbatim>\<open>self.player_pokemon.type\<close>, read only when a move has positive power.
\<close>

fun ai_scan ::
  "PokemonType option \<Rightarrow> Move list \<Rightarrow> real \<times> Move list \<Rightarrow> py_error + (real \<times> Move list)" where
  "ai_scan t [] (best_effectiveness, best_moves) = Inr (best_effectiveness, best_moves)"
| "ai_scan t (move # rest) (best_effectiveness, best_moves) =
     (if power move > 0 then
        (case (case t of
                 None \<Rightarrow> Inl AttributeError
               | Some ty \<Rightarrow> get_multiplier (move_type move) ty) of
           Inl e \<Rightarrow> Inl e
         | Inr effectiveness \<Rightarrow>
             if effectiveness > best_effectiveness then
               ai_scan t rest (effectiveness, [move])
             else if effectiveness = best_effectiveness then
               ai_scan t rest (best_effectiveness, best_moves @ [move])
             else ai_scan t rest (best_effectiveness, best_moves))
      else ai_scan t rest (best_effectiveness, best_moves))"

text \<open>
  The move selection of \<^verbatim>\<open>ai_turn\<close>, from \<^verbatim>\<open>best_moves = []\<close> to
  \<^verbatim>\<open>selected_move\<close>: \<open>ms\<close> is \<^verbatim>\<open>self.enemy_pokemon.moves\<close>.
\<close>

definition ai_select :: "Move list \<Rightarrow> PokemonType option \<Rightarrow> nat \<Rightarrow> py_error + Move" where
  "ai_select ms t k =
     (case ai_scan t ms (0, []) of
        Inl e \<Rightarrow> Inl e
      | Inr (best_effectiveness, best_moves) \<Rightarrow>
          (let best_moves' =
                 (if best_moves = [] then filter (\<lambda>move. power move > 0) ms else best_moves)
           in if best_moves' \<noteq> [] then random_choice best_moves' k
              else random_choice ms k))"

text \<open>\<^verbatim>\<open>PokemonGUI.ai_turn\<close>.\<close>

definition ai_turn :: "gui \<Rightarrow> nat \<Rightarrow> real \<Rightarrow> real \<Rightarrow> outcome" where
  "ai_turn s k roll factor =
     (if \<not> battle_active s \<or> player_turn s then Return s
      else
        (case enemy_pokemon s of
           None \<Rightarrow> Raise AttributeError s
         | Some e \<Rightarrow>
             (case ai_select (moves (heap s e))
                     (map_option (\<lambda>p. pokemon_type (heap s p)) (player_pokemon s)) k of
                Inl err \<Rightarrow> Raise err s
              | Inr selected_move \<Rightarrow>
                  and_then
                    (execute_move s (enemy_pokemon s) (player_pokemon s) selected_move False
                       roll factor)
                    (\<lambda>s1. case player_pokemon s1 of
                             None \<Rightarrow> Raise AttributeError s1
                           | Some p \<Rightarrow>
                               if \<not> is_alive (heap s1 p) then end_battle s1 False
                               else update_move_buttons (s1\<lparr>player_turn := True\<rparr>)))))"

text \<open>
  \<^verbatim>\<open>PokemonGUI.start_battle\<close>. The enemy is a fresh object built from the template that
  \<^verbatim>\<open>random.choice(self.pokemon_roster)\<close> returns.
\<close>

definition start_battle :: "gui \<Rightarrow> nat \<Rightarrow> outcome" where
  "start_battle s k =
     (case player_pokemon s of
        None \<Rightarrow> Return s
      | Some p \<Rightarrow>
          (case random_choice (pokemon_roster s) k of
             Inl err \<Rightarrow> Raise err s
           | Inr enemy_template \<Rightarrow>
               (let e = next_ref s;
                    s1 = s\<lparr>heap := (heap s)(e :=
                              new_Pokemon (name enemy_template) (pokemon_type enemy_template)
                                (max_hp enemy_template) (attack enemy_template)
                                (defense enemy_template) (speed enemy_template)
                                (moves enemy_template)),
                            next_ref := Suc e,
                            enemy_pokemon := Some e\<rparr>;
                    s2 = s1\<lparr>battle_active := True\<rparr>;
                    s3 = s2\<lparr>player_turn := (speed (heap s2 p) \<ge> speed (heap s2 e))\<rparr>
                in and_then (update_hp_display s3)
                     (\<lambda>s4. and_then (update_move_buttons s4)
                        (\<lambda>s5.
                           (let s6 = log_message s5
                                       (BattleBegins (name (heap s5 p)) (name (heap s5 e)));
                                s7 = log_message s6
                                       (SpeedCheck (name (heap s6 p)) (speed (heap s6 p))
                                                   (name (heap s6 e)) (speed (heap s6 e)))
                            in if player_turn s7 then Return (log_message s7 YouGoFirst)
                               else Return (after (log_message s7 EnemyGoesFirst)
                                              1500 AiTurn)))))))"

text \<open>The health invariant of a combatant.\<close>

definition hp_ok :: "Pokemon \<Rightarrow> bool" where
  "hp_ok p = (0 \<le> current_hp p \<and> current_hp p \<le> max_hp p)"


subsection \<open>Notions used to state the properties\<close>

text \<open>The order of the floats other than NaN.\<close>

fun fle :: "pyfloat \<Rightarrow> pyfloat \<Rightarrow> bool" where
  "fle NaN _ = False"
| "fle _ NaN = False"
| "fle NInf _ = True"
| "fle _ PInf = True"
| "fle (Fin a) (Fin b) = (a \<le> b)"
| "fle PInf _ = False"
| "fle _ NInf = False"

text \<open>Whether a call ended in an exception.\<close>

fun raised :: "outcome \<Rightarrow> bool" where
  "raised (Return s) = False"
| "raised (Raise e s) = True"




text \<open>
  The state of \<^verbatim>\<open>start_battle\<close> once \<^verbatim>\<open>self.player_turn\<close> has been assigned: the enemy
  copied from the chosen template into a fresh object, the battle active.
\<close>

definition enemy_from :: "Pokemon \<Rightarrow> Pokemon" where
  "enemy_from t = new_Pokemon (name t) (pokemon_type t) (max_hp t) (attack t) (defense t)
                    (speed t) (moves t)"

definition started :: "gui \<Rightarrow> ref \<Rightarrow> nat \<Rightarrow> gui" where
  "started s p k =
     s\<lparr>heap := (heap s)(next_ref s :=
                 enemy_from (pokemon_roster s ! (k mod length (pokemon_roster s)))),
       next_ref := Suc (next_ref s),
       enemy_pokemon := Some (next_ref s),
       battle_active := True,
       player_turn :=
         (speed (((heap s)(next_ref s :=
                 enemy_from (pokemon_roster s ! (k mod length (pokemon_roster s))))) p)
            \<ge> speed (enemy_from (pokemon_roster s ! (k mod length (pokemon_roster s)))))\<rparr>"

text \<open>
  Example states: a running battle with Charmander (reference 0) on the player's side
  against a Water-type enemy (reference 1), and the state after \<^verbatim>\<open>select_pokemon\<close> with
  no battle started.
\<close>

definition battle_state :: gui where
  "battle_state =
     \<lparr>heap = (\<lambda>r. if r = 0 then fire_attacker else water_defender),
      next_ref = 2,
      player_pokemon = Some 0,
      enemy_pokemon = Some 1,
      battle_active = True,
      player_turn = True,
      pokemon_roster = create_pokemon_roster,
      battle_log = [],
      timers = []\<rparr>"

definition selected_state :: gui where
  "selected_state =
     \<lparr>heap = (\<lambda>r. fire_attacker),
      next_ref = 1,
      player_pokemon = Some 0,
      enemy_pokemon = None,
      battle_active = False,
      player_turn = True,
      pokemon_roster = create_pokemon_roster,
      battle_log = [],
      timers = []\<rparr>"

text \<open>
  Error bounds of a computed double: \<open>r\<close> approximates the positive exact value \<open>x\<close>,
  which lies between \<open>lo\<close> and \<open>hi\<close>, with relative error factors \<open>L\<close> and \<open>U\<close>.
\<close>

definition approx :: "real \<Rightarrow> real \<Rightarrow> real \<Rightarrow> real \<Rightarrow> real \<Rightarrow> real \<Rightarrow> bool" where
  "approx x r L U lo hi \<longleftrightarrow>
     0 < lo \<and> lo \<le> x \<and> x \<le> hi \<and> L * x \<le> r \<and> r \<le> U * x \<and>
     1/2 \<le> L \<and> L \<le> 1 \<and> 1 \<le> U \<and> U \<le> 2"


section \<open>Properties\<close>

lemma get_multiplier_total: "get_multiplier a d = Inr (chart_value a d)"
  by (cases a; cases d; simp add: get_multiplier_def CHART_def chart_value_def)

lemmas state_defs =
  battle_state_def selected_state_def create_pokemon_roster_def

lemmas example_defs =
  fire_attacker_def grass_defender_def water_defender_def normal_defender_def
  zero_defense_defender_def grass_attacker_def water_attacker_def
  sturdy_water_defender_def solar_beam_def hydro_pump_def
  flamethrower_def tackle_def ember_def
  new_Pokemon_def new_Move_def

subsection \<open>Rounding to the nearest double\<close>

lemma pow2_powi: "pow2 e = 2 powi e"
  by (simp add: pow2_def power_int_def inverse_eq_divide power_one_over)

lemma pow2_pos [simp]: "0 < pow2 e"
  by (simp add: pow2_def)

lemma pow2_nonneg [simp]: "0 \<le> pow2 e"
  by (simp add: pow2_def)

lemma pow2_nonzero [simp]: "pow2 e \<noteq> 0"
  by (simp add: pow2_def)

lemma pow2_add: "pow2 (a + b) = pow2 a * pow2 b"
  by (simp add: pow2_powi power_int_add)

lemma pow2_mono: "a \<le> b \<Longrightarrow> pow2 a \<le> pow2 b"
  by (simp add: pow2_powi power_int_increasing)

lemma pow2_nat: "pow2 (int n) = 2 ^ n"
  by (simp add: pow2_def)

lemma expo_bounds:
  assumes "x \<noteq> 0"
  shows "pow2 (expo x) \<le> \<bar>x\<bar>" and "\<bar>x\<bar> < pow2 (expo x + 1)"
proof -
  have "pow2 (expo x) \<le> \<bar>x\<bar> \<and> \<bar>x\<bar> < pow2 (expo x + 1)"
  proof (cases "1 \<le> \<bar>x\<bar>")
    case True
    define n where "n = \<lfloor>\<bar>x\<bar>\<rfloor>"
    have n: "0 < n" using True by (simp add: n_def)
    from bitlen_bounds [OF n]
    have lo: "2 ^ nat (bitlen n - 1) \<le> n" and hi: "n < 2 ^ nat (bitlen n)" by simp_all
    have bl: "1 \<le> bitlen n" using n by (simp add: bitlen_def floorlog_def) 
    have e: "expo x = bitlen n - 1" using True by (simp add: expo_def n_def)
    have "pow2 (bitlen n - 1) = of_int (2 ^ nat (bitlen n - 1))"
      using bl by (simp add: pow2_def)
    also have "\<dots> \<le> of_int n" using lo by (simp only: of_int_le_iff)
    also have "\<dots> \<le> \<bar>x\<bar>" by (simp add: n_def)
    finally have a: "pow2 (expo x) \<le> \<bar>x\<bar>" by (simp add: e)
    have "n + 1 \<le> 2 ^ nat (bitlen n)" using hi by simp
    then have "real_of_int (n + 1) \<le> of_int (2 ^ nat (bitlen n))" by (simp only: of_int_le_iff)
    moreover have "\<bar>x\<bar> < real_of_int (n + 1)" by (simp add: n_def)
    moreover have "pow2 (bitlen n) = of_int (2 ^ nat (bitlen n))"
      using bl by (simp add: pow2_def)
    ultimately have "\<bar>x\<bar> < pow2 (expo x + 1)" by (simp add: e)
    with a show ?thesis by simp
  next
    case False
    define y where "y = 1 / \<bar>x\<bar>"
    define m where "m = \<lceil>y\<rceil> - 1"
    have xp: "0 < \<bar>x\<bar>" using assms by simp
    have y1: "1 < y" using False xp by (simp add: y_def)
    have m: "0 < m" using y1 by (simp add: m_def)
    define k where "k = bitlen m"
    from bitlen_bounds [OF m]
    have lo: "2 ^ nat (k - 1) \<le> m" and hi: "m < 2 ^ nat k" by (simp_all add: k_def)
    have bl: "1 \<le> k" using m by (simp add: k_def bitlen_def floorlog_def)
    have e: "expo x = - k" using False by (simp add: expo_def k_def m_def y_def)
    have "y \<le> real_of_int (m + 1)" by (simp add: m_def)
    also have "m + 1 \<le> 2 ^ nat k" using hi by simp
    then have "real_of_int (m + 1) \<le> of_int (2 ^ nat k)" by (simp only: of_int_le_iff)
    finally have yk: "y \<le> 2 ^ nat k" by simp
    have "real_of_int m < y" by (simp add: m_def) linarith
    moreover have "(2::real) ^ nat (k - 1) \<le> of_int m"
      using of_int_le_iff [of "2 ^ nat (k - 1)" m, where ?'a = real] lo by simp
    ultimately have ky: "2 ^ nat (k - 1) < y" by linarith
    have p1: "pow2 (- k) = 1 / 2 ^ nat k" using bl by (simp add: pow2_def)
    have p2: "pow2 (1 - k) = 1 / 2 ^ nat (k - 1)"
      using bl by (cases "k = 1") (simp_all add: pow2_def)
    have "1 / 2 ^ nat k \<le> \<bar>x\<bar>"
      using yk xp by (simp add: y_def field_simps)
    moreover have "\<bar>x\<bar> < 1 / 2 ^ nat (k - 1)"
      using ky xp by (simp add: y_def field_simps)
    ultimately show ?thesis by (simp add: e p1 p2)
  qed
  then show "pow2 (expo x) \<le> \<bar>x\<bar>" and "\<bar>x\<bar> < pow2 (expo x + 1)" by simp_all
qed

lemma rhe_bounds: "\<bar>of_int (round_half_even x) - x\<bar> \<le> 1/2"
  by (auto simp: round_half_even_def Let_def)

lemma rhe_mono: "x \<le> y \<Longrightarrow> round_half_even x \<le> round_half_even y"
proof -
  assume xy: "x \<le> y"
  then have f: "\<lfloor>x\<rfloor> \<le> \<lfloor>y\<rfloor>" by (rule floor_mono)
  show ?thesis
  proof (cases "\<lfloor>x\<rfloor> = \<lfloor>y\<rfloor>")
    case True
    with xy show ?thesis by (auto simp: round_half_even_def Let_def)
  next
    case False
    with f have "\<lfloor>x\<rfloor> + 1 \<le> \<lfloor>y\<rfloor>" by simp
    moreover have "round_half_even x \<le> \<lfloor>x\<rfloor> + 1" by (simp add: round_half_even_def Let_def)
    moreover have "\<lfloor>y\<rfloor> \<le> round_half_even y" by (simp add: round_half_even_def Let_def)
    ultimately show ?thesis by linarith
  qed
qed

lemma rhe_of_int [simp]: "round_half_even (of_int n) = n"
  by (simp add: round_half_even_def)

lemma rhe_minus: "round_half_even (- x) = - round_half_even x"
proof (cases "x = of_int \<lfloor>x\<rfloor>")
  case True
  then obtain n where "x = of_int n" ..
  then have "- x = of_int (- n)" by simp
  then show ?thesis using \<open>x = of_int n\<close> by (simp only: rhe_of_int)
next
  case False
  then have fl: "\<lfloor>- x\<rfloor> = - \<lfloor>x\<rfloor> - 1"
    by (simp add: floor_minus ceiling_altdef)
  show ?thesis
    using False by (auto simp: round_half_even_def Let_def fl)
qed


lemmas fl_eval =
  fl_def nearest_def ulp_of_def expo_def round_half_even_def pow2_def bitlen_def
  compute_floorlog Let_def

lemma pow2_less_cancel: "pow2 a < pow2 b \<Longrightarrow> a < b"
  using pow2_mono [of b a] by (cases "a < b") simp_all

lemma pow2_split: "pow2 e = 2 ^ 52 * pow2 (e - 52)"
proof -
  have "pow2 e = pow2 (e - 52) * pow2 52" using pow2_add [of "e - 52" 52] by simp
  moreover have "pow2 52 = 2 ^ 52" using pow2_nat [of 52] by simp
  ultimately show ?thesis by simp
qed

lemma pow2_Suc: "pow2 (e + 1) = 2 * pow2 e"
  using pow2_add [of e 1] pow2_nat [of 1] by simp

lemma rhe_zero [simp]: "round_half_even 0 = 0"
  using rhe_of_int [of 0] by simp

lemma rhe_ge:
  assumes "real_of_int n \<le> x"
  shows "real_of_int n \<le> real_of_int (round_half_even x)"
proof -
  have "round_half_even (real_of_int n) \<le> round_half_even x" using assms by (rule rhe_mono)
  then have "n \<le> round_half_even x" by (simp only: rhe_of_int)
  then show ?thesis by (simp only: of_int_le_iff)
qed

lemma rhe_le:
  assumes "x \<le> real_of_int n"
  shows "real_of_int (round_half_even x) \<le> real_of_int n"
proof -
  have "round_half_even x \<le> round_half_even (real_of_int n)" using assms by (rule rhe_mono)
  then have "round_half_even x \<le> n" by (simp only: rhe_of_int)
  then show ?thesis by (simp only: of_int_le_iff)
qed

lemma ulp_pos [simp]: "0 < ulp_of x"
  by (simp add: ulp_of_def)

lemma ulp_nonneg [simp]: "0 \<le> ulp_of x"
  by (simp add: ulp_of_def)

lemma ulp_nonzero [simp]: "ulp_of x \<noteq> 0"
  by (simp add: ulp_of_def)

lemma expo_minus [simp]: "expo (- x) = expo x"
  by (simp add: expo_def)

lemma ulp_minus [simp]: "ulp_of (- x) = ulp_of x"
  by (simp add: ulp_of_def)

lemma nearest_minus: "nearest (- x) = - nearest x"
  using rhe_minus [of "x / ulp_of x"] by (simp add: nearest_def)

lemma nearest_zero [simp]: "nearest 0 = 0"
  by (simp add: nearest_def)

lemma nearest_error: "\<bar>nearest x - x\<bar> \<le> ulp_of x / 2"
proof -
  let ?u = "ulp_of x"
  have "\<bar>of_int (round_half_even (x / ?u)) - x / ?u\<bar> * ?u \<le> 1/2 * ?u"
    by (intro mult_right_mono rhe_bounds) simp
  moreover have "\<bar>of_int (round_half_even (x / ?u)) - x / ?u\<bar> * ?u = \<bar>nearest x - x\<bar>"
  proof -
    have "\<bar>of_int (round_half_even (x / ?u)) - x / ?u\<bar> * ?u
          = \<bar>(of_int (round_half_even (x / ?u)) - x / ?u) * ?u\<bar>"
      by (simp add: abs_mult)
    also have "(of_int (round_half_even (x / ?u)) - x / ?u) * ?u = nearest x - x"
      by (simp add: nearest_def left_diff_distrib)
    finally show ?thesis .
  qed
  ultimately show ?thesis by simp
qed

lemma expo_mono_pos:
  assumes "0 < x" and "x \<le> y"
  shows "expo x \<le> expo y"
proof -
  have "pow2 (expo x) \<le> x" using expo_bounds(1) [of x] assms by simp
  also have "\<dots> \<le> y" by fact
  also have "y < pow2 (expo y + 1)" using expo_bounds(2) [of y] assms by simp
  finally have "expo x < expo y + 1" by (rule pow2_less_cancel)
  then show ?thesis by simp
qed

lemma nearest_upper:
  assumes "0 < x"
  shows "nearest x \<le> pow2 (max (expo x) (- 1022) + 1)"
proof -
  define e where "e = max (expo x) (- 1022)"
  define u where "u = pow2 (e - 52)"
  define N :: int where "N = 2 * 2 ^ 52"
  have u: "ulp_of x = u" by (simp add: ulp_of_def u_def e_def)
  have up: "0 < u" by (simp add: u_def)
  have top: "pow2 (e + 1) = real_of_int N * u"
    using pow2_split [of e] by (simp add: pow2_Suc u_def N_def)
  have "x < pow2 (expo x + 1)" using expo_bounds(2) [of x] assms by simp
  also have "\<dots> \<le> pow2 (e + 1)" by (rule pow2_mono) (simp add: e_def)
  finally have "x \<le> real_of_int N * u" by (simp add: top)
  then have "x / u \<le> real_of_int N" using up by (simp add: field_simps)
  then have "real_of_int (round_half_even (x / u)) \<le> real_of_int N" by (rule rhe_le)
  then have "real_of_int (round_half_even (x / u)) * u \<le> real_of_int N * u"
    using up by (intro mult_right_mono) simp_all
  then show ?thesis unfolding nearest_def u top [symmetric] e_def .
qed

lemma nearest_lower:
  assumes "0 < x" and "- 1022 \<le> expo x"
  shows "pow2 (expo x) \<le> nearest x"
proof -
  define u where "u = pow2 (expo x - 52)"
  define N :: int where "N = 2 ^ 52"
  have u: "ulp_of x = u" using assms(2) by (simp add: ulp_of_def u_def max_def)
  have up: "0 < u" by (simp add: u_def)
  have bot: "pow2 (expo x) = real_of_int N * u"
    using pow2_split [of "expo x"] by (simp add: u_def N_def)
  have "pow2 (expo x) \<le> x" using expo_bounds(1) [of x] assms by simp
  then have "real_of_int N * u \<le> x" by (simp add: bot)
  then have "real_of_int N \<le> x / u" using up by (simp add: field_simps)
  then have "real_of_int N \<le> real_of_int (round_half_even (x / u))" by (rule rhe_ge)
  then have "real_of_int N * u \<le> real_of_int (round_half_even (x / u)) * u"
    using up by (intro mult_right_mono) simp_all
  then show ?thesis unfolding nearest_def u bot .
qed

lemma nearest_nonneg: "0 \<le> x \<Longrightarrow> 0 \<le> nearest x"
proof -
  assume "0 \<le> x"
  then have "0 \<le> x / ulp_of x" by (intro divide_nonneg_nonneg) simp_all
  then have "round_half_even 0 \<le> round_half_even (x / ulp_of x)" by (rule rhe_mono)
  then have "0 \<le> round_half_even (x / ulp_of x)" by simp
  then show ?thesis by (simp add: nearest_def)
qed

lemma nearest_mono_pos:
  assumes "0 < x" and "x \<le> y"
  shows "nearest x \<le> nearest y"
proof -
  let ?ex = "max (expo x) (- 1022)" and ?ey = "max (expo y) (- 1022)"
  have y: "0 < y" using assms by simp
  have le: "?ex \<le> ?ey" using expo_mono_pos [OF assms] by simp
  show ?thesis
  proof (cases "?ex = ?ey")
    case True
    then have u: "ulp_of x = ulp_of y" by (simp add: ulp_of_def)
    have "x / ulp_of y \<le> y / ulp_of y" using assms(2) by (intro divide_right_mono) simp_all
    then have "round_half_even (x / ulp_of y) \<le> round_half_even (y / ulp_of y)"
      by (rule rhe_mono)
    then have "real_of_int (round_half_even (x / ulp_of y)) * ulp_of y
               \<le> real_of_int (round_half_even (y / ulp_of y)) * ulp_of y"
      by (intro mult_right_mono) simp_all
    then show ?thesis by (simp add: nearest_def u)
  next
    case False
    from le False have lt: "?ex < ?ey" by (rule le_neq_trans)
    have "- 1022 \<le> ?ex" by simp
    with lt have "- 1022 < ?ey" by linarith
    then have ey: "- 1022 \<le> expo y" "?ey = expo y" by (simp_all add: max_def split: if_splits)
    have "nearest x \<le> pow2 (?ex + 1)" by (rule nearest_upper [OF assms(1)])
    also have "\<dots> \<le> pow2 (expo y)"
    proof (rule pow2_mono)
      from lt ey(2) show "?ex + 1 \<le> expo y" by linarith
    qed
    also have "\<dots> \<le> nearest y" by (rule nearest_lower [OF y ey(1)])
    finally show ?thesis .
  qed
qed

lemma nearest_mono: "x \<le> y \<Longrightarrow> nearest x \<le> nearest y"
proof -
  assume xy: "x \<le> y"
  consider "0 < x" | "x \<le> 0" "0 \<le> y" | "y < 0" by linarith
  then show ?thesis
  proof cases
    case 1
    then show ?thesis using xy by (rule nearest_mono_pos)
  next
    case 2
    have "nearest x = - nearest (- x)" using nearest_minus [of x] by simp
    moreover have "0 \<le> nearest (- x)" using 2(1) by (intro nearest_nonneg) simp
    moreover have "0 \<le> nearest y" using 2(2) by (rule nearest_nonneg)
    ultimately show ?thesis by simp
  next
    case 3
    have "nearest (- y) \<le> nearest (- x)" using 3 xy by (intro nearest_mono_pos) simp_all
    then show ?thesis by (simp add: nearest_minus)
  qed
qed

subsection \<open>Evaluating the damage computation\<close>

lemma literal_values:
  "literal (9/10) = 8106479329266893 / 2 ^ 53"
  "literal (17/20) = 7656119366529843 / 2 ^ 53"
  "literal (4/5) = 3602879701896397 / 2 ^ 52"
  "literal (3/4) = 3 / 4"
  by (simp_all add: literal_def fl_eval)

lemmas damage_eval =
  calculate_damage_def bind_err_def int_truediv_def int_to_float_def py_int_def
  get_multiplier_total chart_value_def literal_values fl_eval

lemma calculate_damage_hit:
  assumes "power move \<noteq> 0" and "\<not> roll > accuracy move"
  shows "calculate_damage attacker defender move roll factor =
           spec_damage_double attacker defender move factor"
  using assms
  by (simp add: calculate_damage_def spec_damage_double_def spec_base_double_def
      spec_product_double_def spec_stab_def get_multiplier_total bind_err_def Let_def
      split: sum.splits)

subsection \<open>The worked example\<close>

text \<open>
  C4 (as stated). The specification's worked example expects 168 damage against the
  Grass-type defender and 42 against the Water-type one. The code computes
  base = (110/250) * (85/70) * 90 + 2 (about 50.09, since 2 * 50 + 10 = 110), hence
  150 and 37.
\<close>

theorem worked_example_counterexample:
  "calculate_damage fire_attacker grass_defender flamethrower (1/2) 1 \<noteq> Inr 168 \<and>
   calculate_damage fire_attacker water_defender flamethrower (1/2) 1 \<noteq> Inr 42"
  by (simp add: damage_eval example_defs)

text \<open>
  C4 (amended). With the variance fixed at 1.0, a Fire-type move of power 90 that passes
  its accuracy roll, used by a Fire-type attacker with attack 85 against a defender with
  defense 70, deals exactly 150 damage to a Grass-type defender and exactly 37 to a
  Water-type defender.
\<close>

theorem worked_example_amended:
  assumes "pokemon_type attacker = FIRE" and "attack attacker = 85"
    and "defense defender = 70"
    and "power move = 90" and "move_type move = FIRE"
    and "\<not> roll > accuracy move"
  shows "(pokemon_type defender = GRASS \<longrightarrow>
            calculate_damage attacker defender move roll 1 = Inr 150) \<and>
         (pokemon_type defender = WATER \<longrightarrow>
            calculate_damage attacker defender move roll 1 = Inr 37)"
  using assms
  by (simp add: damage_eval)

theorem worked_example_amended_witness:
  "calculate_damage fire_attacker grass_defender flamethrower (7/8) 1 = Inr 150 \<and>
   calculate_damage fire_attacker water_defender flamethrower (7/8) 1 = Inr 37"
proof -
  have g: "pokemon_type grass_defender = GRASS" "defense grass_defender = 70"
    by (simp_all add: example_defs)
  have w: "pokemon_type water_defender = WATER" "defense water_defender = 70"
    by (simp_all add: example_defs)
  have a: "pokemon_type fire_attacker = FIRE" "attack fire_attacker = 85"
    by (simp_all add: example_defs)
  have m: "power flamethrower = 90" "move_type flamethrower = FIRE"
    "\<not> (7/8 :: real) > accuracy flamethrower"
    by (simp_all add: example_defs literal_values)
  from worked_example_amended [OF a g(2) m] worked_example_amended [OF a w(2) m] g(1) w(1)
  show ?thesis by simp
qed


section \<open>Properties of the battle state machine\<close>

subsection \<open>Auxiliary facts about \<^verbatim>\<open>execute_move\<close>\<close>

lemma calculate_damage_cases:
  "(\<exists>e. calculate_damage a d m roll factor = Inl e) \<or>
   calculate_damage a d m roll factor = Inr 0 \<or>
   (\<exists>dmg\<ge>1. calculate_damage a d m roll factor = Inr dmg)"
  by (auto simp: calculate_damage_def Let_def bind_err_def split: sum.splits)

lemma update_hp_display_state: "state_of (update_hp_display s) = s"
  by (simp add: update_hp_display_def split: sum.splits option.splits)

lemma get_hp_percentage_cases:
  "get_hp_percentage p = Inl ZeroDivisionError \<or> get_hp_percentage p = Inl OverflowError \<or>
   (\<exists>v. get_hp_percentage p = Inr v)"
  by (auto simp: get_hp_percentage_def int_truediv_def int_to_float_def bind_err_def
      split: pyfloat.splits)

lemma update_hp_display_cases:
  "update_hp_display s = Return s \<or> update_hp_display s = Raise ZeroDivisionError s \<or>
   update_hp_display s = Raise OverflowError s"
proof -
  have "update_hp_display s = Return s \<or> update_hp_display s = Raise ZeroDivisionError s \<or>
        update_hp_display s = Raise OverflowError s"
    if "\<And>p. get_hp_percentage p = Inl ZeroDivisionError \<or>
             get_hp_percentage p = Inl OverflowError \<or> (\<exists>v. get_hp_percentage p = Inr v)"
    using that [of "heap s (the (player_pokemon s))"] that [of "heap s (the (enemy_pokemon s))"]
    by (auto simp: update_hp_display_def split: option.splits)
  then show ?thesis using get_hp_percentage_cases by blast
qed

lemma update_move_buttons_cases:
  "update_move_buttons s = Return s \<or> update_move_buttons s = Raise IndexError s"
  by (simp add: update_move_buttons_def split: option.splits)

lemma execute_move_heap:
  "heap (state_of (execute_move s (Some a) (Some d) m ip roll factor)) =
     (case calculate_damage (heap s a) (heap s d) m roll factor of
        Inl e \<Rightarrow> heap s
      | Inr dmg \<Rightarrow> if dmg = 0 then heap s else (heap s)(d := take_damage (heap s d) dmg))"
  by (auto simp: execute_move_def calculate_damage_on_def Let_def get_multiplier_total
        log_message_def update_hp_display_state split: sum.splits)

lemma execute_move_other_fields:
  "(state_of (execute_move s (Some a) (Some d) m ip roll factor))
     \<lparr>heap := heap s, battle_log := battle_log s\<rparr> = s"
  by (auto simp: execute_move_def calculate_damage_on_def Let_def get_multiplier_total
        log_message_def update_hp_display_state split: sum.splits)

lemma take_damage_hp_ok: "hp_ok p \<Longrightarrow> 0 \<le> damage \<Longrightarrow> hp_ok (take_damage p damage)"
  by (auto simp: hp_ok_def take_damage_def)

lemma heal_hp_ok: "hp_ok p \<Longrightarrow> 0 \<le> amount \<Longrightarrow> hp_ok (heal p amount)"
  by (auto simp: hp_ok_def heal_def)

subsection \<open>Health invariant\<close>

text \<open>
  C2. \<^verbatim>\<open>take_damage\<close> never leaves health below 0 and \<^verbatim>\<open>heal\<close> never leaves it above
  \<open>max_hp\<close>; both keep \<open>0 \<le> current_hp \<le> max_hp\<close> for a non-negative argument; and
  \<^verbatim>\<open>execute_move\<close> keeps it for every combatant for which it held before the call, the
  attacker and the defender included, whether the call returns or raises.
\<close>

theorem health_invariant:
  "0 \<le> current_hp (take_damage p damage) \<and>
   current_hp (heal p amount) \<le> max_hp (heal p amount) \<and>
   (hp_ok p \<and> 0 \<le> damage \<longrightarrow> hp_ok (take_damage p damage)) \<and>
   (hp_ok p \<and> 0 \<le> amount \<longrightarrow> hp_ok (heal p amount)) \<and>
   (\<forall>r. hp_ok (heap s r) \<longrightarrow>
        hp_ok (heap (state_of (execute_move s (Some a) (Some d) move is_player roll factor)) r))"
proof -
  have "hp_ok (heap (state_of (execute_move s (Some a) (Some d) move is_player roll factor)) r)"
    if "hp_ok (heap s r)" for r
    using calculate_damage_cases [of "heap s a" "heap s d" move roll factor] that
    by (auto simp: execute_move_heap take_damage_hp_ok)
  then show ?thesis
    by (auto simp: take_damage_hp_ok heal_hp_ok) (simp_all add: take_damage_def heal_def)
qed

theorem health_invariant_witness:
  "hp_ok (heap battle_state 1) \<and>
   hp_ok (heap (state_of (execute_move battle_state (Some 0) (Some 1) tackle True (1/2) 1)) 1) \<and>
   current_hp (heap (state_of (execute_move battle_state (Some 0) (Some 1) tackle True (1/2) 1)) 1) = 87 \<and>
   hp_ok (take_damage fire_attacker 30) \<and> hp_ok (heal (take_damage fire_attacker 30) 50)"
proof -
  have a: "hp_ok (heap battle_state 1)" "hp_ok fire_attacker" "hp_ok (take_damage fire_attacker 30)"
    by (simp_all add: hp_ok_def take_damage_def state_defs example_defs)
  have c: "calculate_damage (heap battle_state 0) (heap battle_state 1) tackle (1/2) 1 = Inr 23"
    by (simp add: damage_eval state_defs example_defs)
  have h: "current_hp (heap (state_of (execute_move battle_state (Some 0) (Some 1) tackle True (1/2) 1)) 1) = 87"
    unfolding execute_move_heap c by (simp add: take_damage_def state_defs example_defs)
  from health_invariant [of fire_attacker 30 _ battle_state 0 1 tackle True "1/2" 1]
    health_invariant [of "take_damage fire_attacker 30" _ 50] a h
  show ?thesis by simp
qed

subsection \<open>Moves that deal no damage\<close>

text \<open>
  C3. For a move of power 0 (whatever its accuracy and the roll) and for a move whose
  accuracy roll exceeds its accuracy, \<^verbatim>\<open>calculate_damage\<close> returns 0 and \<^verbatim>\<open>execute_move\<close>
  returns normally with every combatant unchanged, the defender's health in particular;
  the only part of the state that differs is the battle log, which gains the two lines
  announcing the move.
\<close>

theorem no_damage_no_mutation:
  assumes "power move = 0 \<or> roll > accuracy move"
  shows "calculate_damage (heap s a) (heap s d) move roll factor = Inr 0 \<and>
         (\<exists>s'. execute_move s (Some a) (Some d) move is_player roll factor = Return s' \<and>
               heap s' = heap s \<and>
               current_hp (heap s' d) = current_hp (heap s d) \<and>
               s'\<lparr>battle_log := battle_log s\<rparr> = s)"
proof -
  have z: "calculate_damage (heap s a) (heap s d) move roll factor = Inr 0"
    using assms by (auto simp: calculate_damage_def)
  then show ?thesis
    by (simp add: execute_move_def calculate_damage_on_def Let_def log_message_def)
qed

theorem no_damage_no_mutation_witness:
  "(31/32 :: real) > accuracy flamethrower \<and>
   calculate_damage (heap battle_state 0) (heap battle_state 1) flamethrower (31/32) 1 = Inr 0 \<and>
   heap (state_of (execute_move battle_state (Some 0) (Some 1) flamethrower True (31/32) 1))
     = heap battle_state \<and>
   \<not> raised (execute_move battle_state (Some 0) (Some 1) flamethrower True (31/32) 1)"
proof -
  have a: "power flamethrower = 0 \<or> (31/32 :: real) > accuracy flamethrower"
    by (simp add: example_defs literal_values)
  from no_damage_no_mutation [OF a, of battle_state 0 1 1 True] a
  show ?thesis by (auto simp: example_defs literal_values)
qed

subsection \<open>Frame of \<^verbatim>\<open>execute_move\<close>\<close>

text \<open>
  C10 (as stated). The claim covers every call, also one that passes the same object as
  attacker and as defender: then the attacker's \<open>current_hp\<close> is the defender's and
  changes with it, here from 100 to 77.
\<close>

theorem execute_move_frame_counterexample:
  "current_hp (heap (state_of (execute_move battle_state (Some 0) (Some 0) tackle True (1/2) 1)) 0) = 77 \<and>
   current_hp (heap battle_state 0) = 100"
proof -
  have c: "calculate_damage (heap battle_state 0) (heap battle_state 0) tackle (1/2) 1 = Inr 23"
    by (simp add: damage_eval state_defs example_defs)
  show ?thesis
    by (simp add: execute_move_heap c) (simp add: take_damage_def state_defs example_defs)
qed

text \<open>
  C10 (amended). Whether \<^verbatim>\<open>execute_move\<close> returns or raises, every combatant object other
  than the defender is unchanged, and the defender is unchanged except for \<open>current_hp\<close>;
  an attacker that is an object other than the defender keeps every field, its health
  included.
\<close>

theorem execute_move_frame:
  "(\<forall>r. r \<noteq> d \<longrightarrow>
        heap (state_of (execute_move s (Some a) (Some d) move is_player roll factor)) r
          = heap s r) \<and>
   (heap (state_of (execute_move s (Some a) (Some d) move is_player roll factor)) d)
       \<lparr>current_hp := current_hp (heap s d)\<rparr> = heap s d \<and>
   (a \<noteq> d \<longrightarrow>
        heap (state_of (execute_move s (Some a) (Some d) move is_player roll factor)) a
          = heap s a)"
  by (simp add: execute_move_heap take_damage_def split: sum.splits)

theorem execute_move_frame_witness:
  "heap (state_of (execute_move battle_state (Some 0) (Some 1) tackle True (1/2) 1)) 0
     = heap battle_state 0 \<and>
   current_hp (heap (state_of (execute_move battle_state (Some 0) (Some 1) tackle True (1/2) 1)) 1) = 87 \<and>
   current_hp (heap battle_state 1) = 110 \<and>
   (heap (state_of (execute_move battle_state (Some 0) (Some 1) tackle True (1/2) 1)) 1)
      \<lparr>current_hp := 110\<rparr> = heap battle_state 1"
proof -
  have c: "calculate_damage (heap battle_state 0) (heap battle_state 1) tackle (1/2) 1 = Inr 23"
    by (simp add: damage_eval state_defs example_defs)
  have h: "current_hp (heap (state_of (execute_move battle_state (Some 0) (Some 1) tackle True (1/2) 1)) 1) = 87"
    unfolding execute_move_heap c by (simp add: take_damage_def state_defs example_defs)
  have i: "current_hp (heap battle_state 1) = 110"
    by (simp add: state_defs example_defs)
  from execute_move_frame [of 1 battle_state 0 tackle True "1/2" 1] h i
  show ?thesis by simp
qed

subsection \<open>Acting out of turn\<close>

text \<open>
  C6 (as stated). With the battle ended, \<^verbatim>\<open>use_move\<close> raises nothing, and on the player's
  turn \<^verbatim>\<open>ai_turn\<close> raises nothing: both return normally.
\<close>

theorem out_of_turn_counterexample:
  "\<not> battle_active (battle_state\<lparr>battle_active := False\<rparr>) \<and>
   \<not> raised (use_move (battle_state\<lparr>battle_active := False\<rparr>) tackle (1/2) 1) \<and>
   player_turn battle_state \<and>
   \<not> raised (ai_turn battle_state 0 (1/2) 1)"
  by (simp add: use_move_def ai_turn_def battle_state_def)

text \<open>
  C6 (amended). When the battle is not active or it is not the player's turn,
  \<^verbatim>\<open>use_move\<close> returns normally with the state unchanged; when the battle is not active
  or it is the player's turn, \<^verbatim>\<open>ai_turn\<close> returns normally with the state unchanged. No
  move is resolved and no error is raised or flagged.
\<close>

theorem out_of_turn_ignored:
  "(\<not> battle_active s \<or> \<not> player_turn s \<longrightarrow> use_move s move roll factor = Return s) \<and>
   (\<not> battle_active s \<or> player_turn s \<longrightarrow> ai_turn s k roll factor = Return s)"
  by (auto simp: use_move_def ai_turn_def)

theorem out_of_turn_ignored_witness:
  "use_move (battle_state\<lparr>battle_active := False\<rparr>) tackle (1/2) 1
     = Return (battle_state\<lparr>battle_active := False\<rparr>) \<and>
   ai_turn battle_state 0 (1/2) 1 = Return battle_state"
proof -
  have a: "\<not> battle_active (battle_state\<lparr>battle_active := False\<rparr>)" "player_turn battle_state"
    by (simp_all add: state_defs)
  from out_of_turn_ignored [of "battle_state\<lparr>battle_active := False\<rparr>" tackle "1/2" 1]
    out_of_turn_ignored [of battle_state _ "1/2" 1 0] a
  show ?thesis by simp
qed

subsection \<open>Move selection of the automated opponent\<close>









subsection \<open>Who moves first\<close>

lemma start_battle_outcome:
  assumes "player_pokemon s = Some p" and "pokemon_roster s \<noteq> []"
  shows "start_battle s k = Raise ZeroDivisionError (started s p k) \<or>
         start_battle s k = Raise OverflowError (started s p k) \<or>
         start_battle s k = Raise IndexError (started s p k) \<or>
         start_battle s k =
           Return ((started s p k)
             \<lparr>battle_log := battle_log s @
                 [BattleBegins (name (heap (started s p k) p))
                               (name (heap (started s p k) (next_ref s))),
                  SpeedCheck (name (heap (started s p k) p)) (speed (heap (started s p k) p))
                             (name (heap (started s p k) (next_ref s)))
                             (speed (heap (started s p k) (next_ref s)))] @
                 [if player_turn (started s p k) then YouGoFirst else EnemyGoesFirst],
              timers := timers s @
                 (if player_turn (started s p k) then [] else [(1500, AiTurn)])\<rparr>)"
proof -
  have sb: "start_battle s k =
      and_then (update_hp_display (started s p k))
        (\<lambda>s4. and_then (update_move_buttons s4)
           (\<lambda>s5.
              (let s6 = log_message s5 (BattleBegins (name (heap s5 p)) (name (heap s5 (next_ref s))));
                   s7 = log_message s6
                          (SpeedCheck (name (heap s6 p)) (speed (heap s6 p))
                                      (name (heap s6 (next_ref s))) (speed (heap s6 (next_ref s))))
               in if player_turn s7 then Return (log_message s7 YouGoFirst)
                  else Return (after (log_message s7 EnemyGoesFirst) 1500 AiTurn))))"
    using assms
    by (simp add: start_battle_def random_choice_def Let_def started_def enemy_from_def)
  from update_hp_display_cases [of "started s p k"]
       update_move_buttons_cases [of "started s p k"]
  show ?thesis
    unfolding sb
    by (auto simp: and_then_def Let_def log_message_def after_def started_def)
qed

text \<open>
  C8. After \<^verbatim>\<open>start_battle\<close> (a Pokemon selected, roster not empty), whether it returns
  or raises: the battle is active against a fresh copy of the chosen template, and it is
  the player's turn exactly when the player's speed is at least the enemy's. So the
  strictly faster side moves first and the player moves first on a tie. When the call
  returns and the enemy moves first, \<^verbatim>\<open>ai_turn\<close> is scheduled; otherwise nothing is. The
  decision reads the two speeds only; no damage roll or variance is drawn.
\<close>

theorem first_mover_by_speed:
  assumes "player_pokemon s = Some p" and "p < next_ref s" and "pokemon_roster s \<noteq> []"
  shows "let s' = state_of (start_battle s k);
             enemy_template = pokemon_roster s ! (k mod length (pokemon_roster s));
             e = next_ref s
         in enemy_pokemon s' = Some e \<and> battle_active s' \<and>
            heap s' p = heap s p \<and> speed (heap s' e) = speed enemy_template \<and>
            player_turn s' = (speed (heap s' p) \<ge> speed (heap s' e)) \<and>
            (speed (heap s' p) > speed (heap s' e) \<longrightarrow> player_turn s') \<and>
            (speed (heap s' p) = speed (heap s' e) \<longrightarrow> player_turn s') \<and>
            (speed (heap s' p) < speed (heap s' e) \<longrightarrow> \<not> player_turn s') \<and>
            (\<not> raised (start_battle s k) \<longrightarrow>
               timers s' = timers s @ (if player_turn s' then [] else [(1500, AiTurn)]))"
proof -
  have ne: "p \<noteq> next_ref s" using assms(2) by simp
  from start_battle_outcome [OF assms(1,3), of k] ne
  show ?thesis
    unfolding Let_def
    by (elim disjE) (simp_all add: started_def enemy_from_def new_Pokemon_def)
qed

theorem first_mover_by_speed_witness:
  "player_turn (state_of (start_battle selected_state 0)) \<and>
   speed (heap (state_of (start_battle selected_state 0)) 0) = 90 \<and>
   speed (heap (state_of (start_battle selected_state 0)) 1) = 90 \<and>
   \<not> player_turn (state_of (start_battle selected_state 3)) \<and>
   speed (heap (state_of (start_battle selected_state 3)) 1) = 110 \<and>
   timers (state_of (start_battle selected_state 3)) = [(1500, AiTurn)]"
proof -
  have a: "player_pokemon selected_state = Some 0" "0 < next_ref selected_state"
    "pokemon_roster selected_state \<noteq> []"
    by (simp_all add: state_defs)
  have r: "\<not> raised (start_battle selected_state 3)"
    by (simp add: start_battle_def random_choice_def update_hp_display_def
        update_move_buttons_def get_hp_percentage_def and_then_def bind_err_def
        int_truediv_def int_to_float_def fl_eval state_defs example_defs)
  have sp: "speed (heap selected_state 0) = 90"
    "speed (pokemon_roster selected_state ! (0 mod length (pokemon_roster selected_state))) = 90"
    "speed (pokemon_roster selected_state ! (3 mod length (pokemon_roster selected_state))) = 110"
    "speed (pokemon_roster selected_state ! 0) = 90"
    "timers selected_state = []" "next_ref selected_state = 1"
    by (simp_all add: state_defs example_defs)
  from first_mover_by_speed [OF a, of 0] first_mover_by_speed [OF a, of 3] r
  show ?thesis
    unfolding Let_def by (simp add: sp)
qed


section \<open>Properties of the damage computation in double precision\<close>

subsection \<open>Order of the doubles under multiplication\<close>

lemma fl_alt:
  "fl x = (if 2 ^ 1024 \<le> nearest x then PInf
           else if nearest x \<le> - (2 ^ 1024) then NInf else Fin (nearest x))"
  by (simp add: fl_def)

lemma fl_not_NaN [simp]: "fl x \<noteq> NaN"
  by (simp add: fl_alt)

lemma fl_zero [simp]: "fl 0 = Fin 0"
  by (simp add: fl_def)

lemma fl_mono: "x \<le> y \<Longrightarrow> fle (fl x) (fl y)"
  using nearest_mono [of x y] by (auto simp: fl_alt)

lemma fle_refl: "v \<noteq> NaN \<Longrightarrow> fle v v"
  by (cases v) simp_all

lemma fle_trans: "fle a b \<Longrightarrow> fle b c \<Longrightarrow> fle a c"
  by (cases a; cases b; cases c) simp_all

lemma fle_not_NaN: "fle a b \<Longrightarrow> a \<noteq> NaN \<and> b \<noteq> NaN"
  by (cases a; cases b) simp_all

lemma fle_total: "v \<noteq> NaN \<Longrightarrow> fle (Fin 0) v \<or> fle v (Fin 0)"
  by (cases v) auto

lemma fmul_not_NaN: "a \<noteq> NaN \<Longrightarrow> c \<noteq> 0 \<Longrightarrow> fmul a (Fin c) \<noteq> NaN"
  by (cases a) simp_all

lemma fle_fl_PInf [simp]: "fle (fl x) PInf"
  by (simp add: fl_alt)

lemma fle_NInf_fl [simp]: "fle NInf (fl x)"
  by (simp add: fl_alt)

lemma fmul_mono_left:
  assumes "fle a b" and "0 < c"
  shows "fle (fmul a (Fin c)) (fmul b (Fin c))"
  using assms by (cases a; cases b) (auto intro!: fl_mono simp: mult_right_mono)

lemma fmul_anti_left:
  assumes "fle a b" and "c < 0"
  shows "fle (fmul b (Fin c)) (fmul a (Fin c))"
  using assms by (cases a; cases b) (auto intro!: fl_mono simp: mult_right_mono_neg)

lemma fmul_mono_right_nonneg:
  assumes "fle (Fin 0) a" and "0 < c" and "c \<le> d"
  shows "fle (fmul a (Fin c)) (fmul a (Fin d))"
  using assms by (cases a) (auto intro!: fl_mono simp: mult_left_mono)

lemma fmul_mono_right_nonpos:
  assumes "fle a (Fin 0)" and "0 < c" and "c \<le> d"
  shows "fle (fmul a (Fin d)) (fmul a (Fin c))"
  using assms by (cases a) (auto intro!: fl_mono simp: mult_left_mono_neg)

lemma fmul_zero_left [simp]: "fmul (Fin 0) (Fin c) = Fin 0"
  by simp

lemma fmul_nonneg:
  assumes "fle (Fin 0) a" and "0 < c"
  shows "fle (Fin 0) (fmul a (Fin c))"
  using fmul_mono_left [OF assms] by simp

lemma fmul_nonpos:
  assumes "fle a (Fin 0)" and "0 < c"
  shows "fle (fmul a (Fin c)) (Fin 0)"
  using fmul_mono_left [OF assms] by simp

lemma fmul_neg_of_nonneg:
  assumes "fle (Fin 0) a" and "c < 0"
  shows "fle (fmul a (Fin c)) (Fin 0)"
  using fmul_anti_left [OF assms] by simp

lemma fmul_neg_of_nonpos:
  assumes "fle a (Fin 0)" and "c < 0"
  shows "fle (Fin 0) (fmul a (Fin c))"
  using fmul_anti_left [OF assms] by simp

lemma fle_between_zero:
  "fle (Fin 0) v \<Longrightarrow> fle v (Fin x) \<Longrightarrow> \<exists>y. v = Fin y \<and> 0 \<le> y \<and> y \<le> x"
  "fle (Fin x) v \<Longrightarrow> fle v (Fin 0) \<Longrightarrow> \<exists>y. v = Fin y \<and> x \<le> y \<and> y \<le> 0"
  by (cases v; simp)+

text \<open>
  The two products of one base \<open>b\<close>: \<open>v1\<close> with multiplier \<open>e1\<close> and the same-type
  bonus, \<open>v2\<close> with a multiplier \<open>e2 \<le> e1\<close> and no bonus. Either \<open>v1\<close> is a NaN, or
  both are non-negative with \<open>v2 \<le> v1\<close>, or both are non-positive with \<open>v1 \<le> v2\<close>.
\<close>

lemma product_order:
  fixes b :: pyfloat and f e1 e2 :: real
  defines "v1 \<equiv> spec_product_double b e1 f (3/2)"
    and "v2 \<equiv> spec_product_double b e2 f 1"
  assumes e: "0 < e2" "e2 \<le> e1"
  shows "v1 = NaN \<or> (fle (Fin 0) v2 \<and> fle v2 v1) \<or> (fle v1 v2 \<and> fle v2 (Fin 0))"
proof (cases "b = NaN")
  case True
  then show ?thesis by (simp add: v1_def spec_product_double_def)
next
  case False
  have e1: "0 < e1" using e by simp
  define A1 where "A1 = fmul b (Fin e1)"
  define A2 where "A2 = fmul b (Fin e2)"
  define B1 where "B1 = fmul A1 (Fin f)"
  define B2 where "B2 = fmul A2 (Fin f)"
  have v1: "v1 = fmul B1 (Fin (3/2))" and v2: "v2 = fmul B2 (Fin 1)"
    by (simp_all add: v1_def v2_def spec_product_double_def A1_def A2_def B1_def B2_def)
  from fle_total [OF False] show ?thesis
  proof
    assume b: "fle (Fin 0) b"
    have A: "fle A2 A1" "fle (Fin 0) A2" "fle (Fin 0) A1"
      unfolding A1_def A2_def
      using fmul_mono_right_nonneg [OF b e] fmul_nonneg [OF b e(1)] fmul_nonneg [OF b e1]
      by simp_all
    consider "0 < f" | "f = 0" | "f < 0" by linarith
    then show ?thesis
    proof cases
      case 1
      have B: "fle B2 B1" "fle (Fin 0) B2" "fle (Fin 0) B1"
        unfolding B1_def B2_def
        using fmul_mono_left [OF A(1) 1] fmul_nonneg [OF A(2) 1] fmul_nonneg [OF A(3) 1]
        by simp_all
      have "fle (fmul B2 (Fin 1)) (fmul B1 (Fin 1))" using fmul_mono_left [OF B(1)] by simp
      moreover have "fle (fmul B1 (Fin 1)) (fmul B1 (Fin (3/2)))"
        using fmul_mono_right_nonneg [OF B(3), of 1 "3/2"] by simp
      ultimately have "fle v2 v1" unfolding v1 v2 by (rule fle_trans)
      moreover have "fle (Fin 0) v2" unfolding v2 using fmul_nonneg [OF B(2), of 1] by simp
      ultimately show ?thesis by simp
    next
      case 2
      show ?thesis
      proof (cases A1)
        case (Fin x)
        with A obtain y where "A2 = Fin y" using fle_between_zero(1) [of A2 x] by auto
        with Fin 2 show ?thesis by (simp add: v1 v2 B1_def B2_def)
      qed (use A 2 in \<open>simp_all add: v1 B1_def\<close>)
    next
      case 3
      have B: "fle B1 B2" "fle B2 (Fin 0)" "fle B1 (Fin 0)"
        unfolding B1_def B2_def
        using fmul_anti_left [OF A(1) 3] fmul_neg_of_nonneg [OF A(2) 3]
          fmul_neg_of_nonneg [OF A(3) 3]
        by simp_all
      have "fle (fmul B1 (Fin (3/2))) (fmul B1 (Fin 1))"
        using fmul_mono_right_nonpos [OF B(3), of 1 "3/2"] by simp
      moreover have "fle (fmul B1 (Fin 1)) (fmul B2 (Fin 1))"
        using fmul_mono_left [OF B(1)] by simp
      ultimately have "fle v1 v2" unfolding v1 v2 by (rule fle_trans)
      moreover have "fle v2 (Fin 0)" unfolding v2 using fmul_nonpos [OF B(2), of 1] by simp
      ultimately show ?thesis by simp
    qed
  next
    assume b: "fle b (Fin 0)"
    have A: "fle A1 A2" "fle A2 (Fin 0)" "fle A1 (Fin 0)"
      unfolding A1_def A2_def
      using fmul_mono_right_nonpos [OF b e] fmul_nonpos [OF b e(1)] fmul_nonpos [OF b e1]
      by simp_all
    consider "0 < f" | "f = 0" | "f < 0" by linarith
    then show ?thesis
    proof cases
      case 1
      have B: "fle B1 B2" "fle B2 (Fin 0)" "fle B1 (Fin 0)"
        unfolding B1_def B2_def
        using fmul_mono_left [OF A(1) 1] fmul_nonpos [OF A(2) 1] fmul_nonpos [OF A(3) 1]
        by simp_all
      have "fle (fmul B1 (Fin (3/2))) (fmul B1 (Fin 1))"
        using fmul_mono_right_nonpos [OF B(3), of 1 "3/2"] by simp
      moreover have "fle (fmul B1 (Fin 1)) (fmul B2 (Fin 1))"
        using fmul_mono_left [OF B(1)] by simp
      ultimately have "fle v1 v2" unfolding v1 v2 by (rule fle_trans)
      moreover have "fle v2 (Fin 0)" unfolding v2 using fmul_nonpos [OF B(2), of 1] by simp
      ultimately show ?thesis by simp
    next
      case 2
      show ?thesis
      proof (cases A1)
        case (Fin x)
        with A obtain y where "A2 = Fin y" using fle_between_zero(2) [of x A2] by auto
        with Fin 2 show ?thesis by (simp add: v1 v2 B1_def B2_def)
      qed (use A 2 in \<open>simp_all add: v1 B1_def\<close>)
    next
      case 3
      have B: "fle B2 B1" "fle (Fin 0) B2" "fle (Fin 0) B1"
        unfolding B1_def B2_def
        using fmul_anti_left [OF A(1) 3] fmul_neg_of_nonpos [OF A(2) 3]
          fmul_neg_of_nonpos [OF A(3) 3]
        by simp_all
      have "fle (fmul B2 (Fin 1)) (fmul B1 (Fin 1))" using fmul_mono_left [OF B(1)] by simp
      moreover have "fle (fmul B1 (Fin 1)) (fmul B1 (Fin (3/2)))"
        using fmul_mono_right_nonneg [OF B(3), of 1 "3/2"] by simp
      ultimately have "fle v2 v1" unfolding v1 v2 by (rule fle_trans)
      moreover have "fle (Fin 0) v2" unfolding v2 using fmul_nonneg [OF B(2), of 1] by simp
      ultimately show ?thesis by simp
    qed
  qed
qed

lemma damage_order:
  assumes "py_int v1 = Inr k1"
    and "v1 = NaN \<or> (fle (Fin 0) v2 \<and> fle v2 v1) \<or> (fle v1 v2 \<and> fle v2 (Fin 0))"
  shows "\<exists>k2. py_int v2 = Inr k2 \<and> max 1 k2 \<le> max 1 k1"
proof -
  from assms(1) obtain x1 where x1: "v1 = Fin x1"
    by (cases v1) (simp_all add: py_int_def)
  from assms(2) x1 consider "fle (Fin 0) v2" "fle v2 (Fin x1)" | "fle (Fin x1) v2" "fle v2 (Fin 0)"
    by auto
  then show ?thesis
  proof cases
    case 1
    then obtain y where y: "v2 = Fin y" "0 \<le> y" "y \<le> x1"
      using fle_between_zero(1) by blast
    then have "\<lfloor>y\<rfloor> \<le> \<lfloor>x1\<rfloor>" by (intro floor_mono)
    with y assms(1) x1 show ?thesis by (auto simp: py_int_def)
  next
    case 2
    then obtain y where y: "v2 = Fin y" "x1 \<le> y" "y \<le> 0"
      using fle_between_zero(2) by blast
    define t where "t = (if 0 \<le> y then \<lfloor>y\<rfloor> else \<lceil>y\<rceil>)"
    have "t \<le> 0" using y(3) by (simp add: t_def)
    then have "max 1 t \<le> max 1 k1" by simp
    moreover have "py_int v2 = Inr t" by (simp add: py_int_def y(1) t_def)
    ultimately show ?thesis by blast
  qed
qed

lemma chart_value_pos: "0 < chart_value a d"
  by (cases a; cases d; simp add: chart_value_def)

lemma spec_base_double_power:
  "power m1 = power m2 \<Longrightarrow> spec_base_double a d m1 = spec_base_double a d m2"
  by (simp add: spec_base_double_def)

subsection \<open>Outcomes of the conversions\<close>

lemma constant_quotient:
  "int_truediv 110 250 = Inr (Fin (7926335344172073 / 2 ^ 54))"
  by (simp add: int_truediv_def fl_eval)

lemma float_two: "int_to_float 2 = Inr (Fin 2)"
  by (simp add: int_to_float_def fl_eval)

lemma int_truediv_zero [simp]: "int_truediv a 0 = Inl ZeroDivisionError"
  by (simp add: int_truediv_def)

lemma int_truediv_cases:
  "b \<noteq> 0 \<Longrightarrow> int_truediv a b = Inl OverflowError \<or> (\<exists>r. int_truediv a b = Inr (Fin r))"
  by (auto simp: int_truediv_def split: pyfloat.splits)

lemma int_to_float_cases:
  "int_to_float n = Inl OverflowError \<or> (\<exists>r. int_to_float n = Inr (Fin r))"
  by (auto simp: int_to_float_def split: pyfloat.splits)

lemma py_int_cases:
  "py_int v = Inl OverflowError \<or> py_int v = Inl ValueError \<or> (\<exists>k. py_int v = Inr k)"
  by (cases v) (simp_all add: py_int_def)

lemma spec_base_double_zero_division:
  "spec_base_double attacker defender move = Inl ZeroDivisionError \<longleftrightarrow> defense defender = 0"
proof (cases "defense defender = 0")
  case True
  then show ?thesis
    by (simp add: spec_base_double_def constant_quotient bind_err_def)
next
  case False
  from int_truediv_cases [OF False, of "attack attacker"] int_to_float_cases [of "power move"]
  show ?thesis
    using False
    by (auto simp: spec_base_double_def constant_quotient float_two bind_err_def)
qed

subsection \<open>Division by zero\<close>

text \<open>
  C5 (as stated). A combatant with defense 0 is accepted by the constructor with its
  defense kept at 0, and resolving a move of positive power that passes its accuracy
  roll against it raises ZeroDivisionError.
\<close>

theorem zero_defense_counterexample:
  "defense (new_Pokemon ''Glass'' WATER 110 75 0 70 moves_water) = 0 \<and>
   power tackle > 0 \<and>
   calculate_damage fire_attacker (new_Pokemon ''Glass'' WATER 110 75 0 70 moves_water)
     tackle (1/2) 1 = Inl ZeroDivisionError"
  by (simp add: damage_eval example_defs)

text \<open>
  C5 (amended). The constructor stores the defense it is given, zero included. Damage
  computation raises ZeroDivisionError exactly when the move's power is not zero, the
  accuracy roll does not exceed the move's accuracy, and the defender's defense is 0.
  In particular it never divides by zero for a defender whose defense is not zero, nor
  for a move of power 0 or a missed move.
\<close>

theorem zero_division_exactly:
  "defense (new_Pokemon n t hp a d sp ms) = d \<and>
   (calculate_damage attacker defender move roll factor = Inl ZeroDivisionError
      \<longleftrightarrow> power move \<noteq> 0 \<and> \<not> roll > accuracy move \<and> defense defender = 0)"
proof -
  have "calculate_damage attacker defender move roll factor = Inl ZeroDivisionError
          \<longleftrightarrow> defense defender = 0"
    if h: "power move \<noteq> 0" "\<not> roll > accuracy move"
  proof -
    let ?v = "\<lambda>b. spec_product_double b (chart_value (move_type move) (pokemon_type defender))
                  factor (spec_stab attacker move)"
    have "spec_damage_double attacker defender move factor = Inl ZeroDivisionError
            \<longleftrightarrow> spec_base_double attacker defender move = Inl ZeroDivisionError"
    proof (cases "spec_base_double attacker defender move")
      case (Inl e)
      then show ?thesis by (simp add: spec_damage_double_def bind_err_def)
    next
      case (Inr b)
      with py_int_cases [of "?v b"] show ?thesis
        by (auto simp: spec_damage_double_def bind_err_def)
    qed
    then show ?thesis
      by (simp add: calculate_damage_hit [OF h] spec_base_double_zero_division)
  qed
  note hit = this
  have miss: "calculate_damage attacker defender move roll factor = Inr 0"
    if "power move = 0 \<or> roll > accuracy move"
    using that by (auto simp: calculate_damage_def)
  have "calculate_damage attacker defender move roll factor = Inl ZeroDivisionError
      \<longleftrightarrow> power move \<noteq> 0 \<and> \<not> roll > accuracy move \<and> defense defender = 0"
  proof (cases "power move = 0 \<or> roll > accuracy move")
    case True
    with miss [OF True] show ?thesis by auto
  next
    case False
    then have "power move \<noteq> 0" "\<not> roll > accuracy move" by simp_all
    with hit [OF this] show ?thesis by simp
  qed
  then show ?thesis by (simp add: new_Pokemon_def)
qed

theorem zero_division_exactly_witness:
  "calculate_damage fire_attacker zero_defense_defender ember 1 1 = Inl ZeroDivisionError \<and>
   calculate_damage fire_attacker zero_defense_defender flamethrower 1 1 \<noteq> Inl ZeroDivisionError \<and>
   calculate_damage fire_attacker water_defender ember 1 1 \<noteq> Inl ZeroDivisionError"
proof -
  have e: "power ember \<noteq> 0 \<and> \<not> (1::real) > accuracy ember \<and> defense zero_defense_defender = 0"
    by (simp add: example_defs)
  have f: "(1::real) > accuracy flamethrower"
    by (simp add: example_defs literal_values)
  have w: "defense water_defender \<noteq> 0"
    by (simp add: example_defs)
  from zero_division_exactly [of _ _ _ _ _ _ _ fire_attacker zero_defense_defender ember 1 1]
    zero_division_exactly [of _ _ _ _ _ _ _ fire_attacker zero_defense_defender flamethrower 1 1]
    zero_division_exactly [of _ _ _ _ _ _ _ fire_attacker water_defender ember 1 1] e f w
  show ?thesis by simp
qed

subsection \<open>Same-type attack bonus\<close>

text \<open>
  C9 (as stated). A Fire-type attacker against a Water-type defender: the Fire-type
  move (matching the attacker) of power 90 deals 37, the otherwise identical
  Normal-type move deals 50, because the chart entry changes with the move's type.
\<close>

theorem stab_monotonicity_counterexample:
  "move_type flamethrower = pokemon_type fire_attacker \<and>
   move_type (flamethrower\<lparr>move_type := NORMAL\<rparr>) \<noteq> pokemon_type fire_attacker \<and>
   calculate_damage fire_attacker water_defender flamethrower (1/2) 1 = Inr 37 \<and>
   calculate_damage fire_attacker water_defender (flamethrower\<lparr>move_type := NORMAL\<rparr>)
     (1/2) 1 = Inr 50"
  by (simp add: damage_eval example_defs)

text \<open>
  C9 (amended). Holding the variance and the outcome of the accuracy roll fixed, let a
  move match the attacker's type and a move of the same power not match it, the chart
  multiplier of the non-matching type against the defender being at most that of the
  matching type. Whenever the resolution of the matching move returns a damage, the
  resolution of the non-matching move returns one too, and it is no greater. (The
  matching move's product is the larger one, so it is the first to leave the range of
  the doubles; when it raises, nothing is claimed.)
\<close>

theorem stab_monotonicity_amended:
  assumes "power m1 = power m2" and "power m1 > 0"
    and "move_type m1 = pokemon_type attacker"
    and "move_type m2 \<noteq> pokemon_type attacker"
    and "chart_value (move_type m2) (pokemon_type defender)
           \<le> chart_value (move_type m1) (pokemon_type defender)"
    and "(roll > accuracy m1) = (roll > accuracy m2)"
    and "calculate_damage attacker defender m1 roll factor = Inr d1"
  shows "\<exists>d2. calculate_damage attacker defender m2 roll factor = Inr d2 \<and> d2 \<le> d1"
proof (cases "roll > accuracy m1")
  case True
  with assms show ?thesis by (auto simp: calculate_damage_def)
next
  case False
  have p1: "power m1 \<noteq> 0" and p2: "power m2 \<noteq> 0" using assms(1,2) by simp_all
  have h1: "\<not> roll > accuracy m1" and h2: "\<not> roll > accuracy m2"
    using False assms(6) by simp_all
  let ?e1 = "chart_value (move_type m1) (pokemon_type defender)"
  let ?e2 = "chart_value (move_type m2) (pokemon_type defender)"
  have s1: "spec_stab attacker m1 = 3/2" and s2: "spec_stab attacker m2 = 1"
    using assms(3,4) by (simp_all add: spec_stab_def)
  from assms(7) have "spec_damage_double attacker defender m1 factor = Inr d1"
    by (simp add: calculate_damage_hit [OF p1 h1])
  then obtain b k1 where b: "spec_base_double attacker defender m1 = Inr b"
    and k1: "py_int (spec_product_double b ?e1 factor (3/2)) = Inr k1"
    and d1: "d1 = max 1 k1"
    by (auto simp: spec_damage_double_def bind_err_def s1 split: sum.splits)
  have b2: "spec_base_double attacker defender m2 = Inr b"
    using b spec_base_double_power [OF assms(1)] by simp
  from damage_order [OF k1 product_order [OF chart_value_pos assms(5)]]
  obtain k2 where "py_int (spec_product_double b ?e2 factor 1) = Inr k2" "max 1 k2 \<le> max 1 k1"
    by blast
  then show ?thesis
    by (simp add: calculate_damage_hit [OF p2 h2] spec_damage_double_def bind_err_def b2 s2 d1)
qed

theorem stab_monotonicity_amended_witness:
  "calculate_damage fire_attacker grass_defender flamethrower (1/2) 1 = Inr 150 \<and>
   calculate_damage fire_attacker grass_defender (flamethrower\<lparr>move_type := NORMAL\<rparr>)
     (1/2) 1 = Inr 50 \<and>
   calculate_damage fire_attacker normal_defender ember (1/2) (7/8) = Inr 28 \<and>
   calculate_damage fire_attacker normal_defender tackle (1/2) (7/8) = Inr 19"
proof -
  let ?n = "flamethrower\<lparr>move_type := NORMAL\<rparr>"
  have a: "power flamethrower = power ?n" "power flamethrower > 0"
    "move_type flamethrower = pokemon_type fire_attacker"
    "move_type ?n \<noteq> pokemon_type fire_attacker"
    "chart_value (move_type ?n) (pokemon_type grass_defender)
       \<le> chart_value (move_type flamethrower) (pokemon_type grass_defender)"
    "((1/2 :: real) > accuracy flamethrower) = (1/2 > accuracy ?n)"
    by (simp_all add: example_defs chart_value_def)
  have b: "power ember = power tackle" "power ember > 0"
    "move_type ember = pokemon_type fire_attacker"
    "move_type tackle \<noteq> pokemon_type fire_attacker"
    "chart_value (move_type tackle) (pokemon_type normal_defender)
       \<le> chart_value (move_type ember) (pokemon_type normal_defender)"
    "((1/2 :: real) > accuracy ember) = (1/2 > accuracy tackle)"
    by (simp_all add: example_defs chart_value_def)
  have v: "calculate_damage fire_attacker grass_defender flamethrower (1/2) 1 = Inr 150"
    "calculate_damage fire_attacker grass_defender ?n (1/2) 1 = Inr 50"
    "calculate_damage fire_attacker normal_defender ember (1/2) (7/8) = Inr 28"
    "calculate_damage fire_attacker normal_defender tackle (1/2) (7/8) = Inr 19"
    by (simp_all add: damage_eval example_defs)
  from stab_monotonicity_amended [OF a v(1)] stab_monotonicity_amended [OF b v(3)] v
  show ?thesis by simp
qed

subsection \<open>Relative error of the rounded operations\<close>

lemma pow2_numeral_neg: "pow2 (- 1022) = 1 / 2 ^ 1022"
  by (simp add: pow2_def)

lemma fl_rel:
  assumes "pow2 (- 1022) \<le> x" and "x < 2 ^ 1023"
  shows "fl x = Fin (nearest x)"
    and "(1 - 1 / 2 ^ 53) * x \<le> nearest x"
    and "nearest x \<le> (1 + 1 / 2 ^ 53) * x"
proof -
  have xp: "0 < x" using assms(1) pow2_pos [of "- 1022"] by linarith
  have "pow2 (- 1022) < pow2 (expo x + 1)"
    using assms(1) expo_bounds(2) [of x] xp by simp
  then have lo: "- 1022 \<le> expo x" using pow2_less_cancel by fastforce
  have "pow2 (expo x) < pow2 1023"
    using assms(2) expo_bounds(1) [of x] xp pow2_nat [of 1023] by simp
  then have hi: "expo x + 1 \<le> 1023" using pow2_less_cancel by fastforce
  have u: "ulp_of x = pow2 (expo x - 52)" using lo by (simp add: ulp_of_def max_def)
  have "ulp_of x / 2 = pow2 (expo x) / 2 ^ 53"
    unfolding u using pow2_split [of "expo x"] by simp
  also have "\<dots> \<le> x / 2 ^ 53"
    using expo_bounds(1) [of x] xp by (simp add: divide_right_mono)
  finally have err: "\<bar>nearest x - x\<bar> \<le> x / 2 ^ 53"
    using nearest_error [of x] by linarith
  have e1: "(1 - 1 / 2 ^ 53) * x = x - x / 2 ^ 53" and e2: "(1 + 1 / 2 ^ 53) * x = x + x / 2 ^ 53"
    by (simp_all add: algebra_simps)
  from err show "(1 - 1 / 2 ^ 53) * x \<le> nearest x" unfolding e1 by linarith
  from err show "nearest x \<le> (1 + 1 / 2 ^ 53) * x" unfolding e2 by linarith
  have "nearest x \<le> pow2 (max (expo x) (- 1022) + 1)" by (rule nearest_upper [OF xp])
  also have "max (expo x) (- 1022) = expo x" using lo by simp
  also have "pow2 (expo x + 1) \<le> pow2 1023" using hi by (rule pow2_mono)
  also have "pow2 1023 = 2 ^ 1023" using pow2_nat [of 1023] by simp
  finally have "nearest x < 2 ^ 1024" by simp
  moreover have "0 \<le> nearest x" using xp by (intro nearest_nonneg) simp
  ultimately show "fl x = Fin (nearest x)" by (simp add: fl_alt)
qed

lemma fl_approx:
  assumes "0 < z" and "L * z \<le> w" and "w \<le> U * z"
    and "1 / 2 ^ 200 \<le> L * z" and "U * z \<le> 2 ^ 200"
    and "L3 \<le> (1 - 1 / 2 ^ 53) * L" and "(1 + 1 / 2 ^ 53) * U \<le> U3"
  shows "\<exists>t. fl w = Fin t \<and> L3 * z \<le> t \<and> t \<le> U3 * z"
proof -
  have "pow2 (- 1022) \<le> 1 / 2 ^ 200" by (simp add: pow2_numeral_neg)
  with assms have r1: "pow2 (- 1022) \<le> w" by linarith
  have "(2::real) ^ 200 < 2 ^ 1023" by simp
  with assms have r2: "w < 2 ^ 1023" by linarith
  have wp: "0 < w" using r1 pow2_pos [of "- 1022"] by linarith
  note f = fl_rel [OF r1 r2]
  have "L3 * z \<le> ((1 - 1 / 2 ^ 53) * L) * z" using assms(1,6) by (intro mult_right_mono) simp_all
  also have "\<dots> = (1 - 1 / 2 ^ 53) * (L * z)" by simp
  also have "\<dots> \<le> (1 - 1 / 2 ^ 53) * w" using assms(2) by (intro mult_left_mono) simp_all
  also have "\<dots> \<le> nearest w" by (rule f(2))
  finally have a: "L3 * z \<le> nearest w" .
  have "nearest w \<le> (1 + 1 / 2 ^ 53) * w" by (rule f(3))
  also have "\<dots> \<le> (1 + 1 / 2 ^ 53) * (U * z)" using assms(3) by (intro mult_left_mono) simp_all
  also have "\<dots> = ((1 + 1 / 2 ^ 53) * U) * z" by simp
  also have "\<dots> \<le> U3 * z" using assms(1,7) by (intro mult_right_mono) simp_all
  finally have b: "nearest w \<le> U3 * z" .
  from f(1) a b show ?thesis by blast
qed

lemma mul_step:
  assumes x: "approx x r L1 U1 lx ux" and y: "approx y s L2 U2 ly uy"
    and range: "1 / 2 ^ 100 \<le> lx * ly" "ux * uy \<le> 2 ^ 100"
    and L3: "1/2 \<le> L3" "L3 \<le> (1 - 1 / 2 ^ 53) * (L1 * L2)" "L3 \<le> 1"
    and U3: "(1 + 1 / 2 ^ 53) * (U1 * U2) \<le> U3" "U3 \<le> 2" "1 \<le> U3"
  shows "\<exists>t. fmul (Fin r) (Fin s) = Fin t \<and> approx (x * y) t L3 U3 (lx * ly) (ux * uy)"
proof -
  from x y have pos: "0 < x" "0 < y" "0 < lx" "0 < ly"
    and b: "lx \<le> x" "x \<le> ux" "ly \<le> y" "y \<le> uy"
    and rr: "L1 * x \<le> r" "r \<le> U1 * x" "L2 * y \<le> s" "s \<le> U2 * y"
    and LU: "1/2 \<le> L1" "1/2 \<le> L2" "U1 \<le> 2" "U2 \<le> 2"
    by (auto simp: approx_def)
  have xy: "0 < x * y" using pos by simp
  have lo: "lx * ly \<le> x * y" using b pos by (intro mult_mono) simp_all
  have hi: "x * y \<le> ux * uy" using b pos by (intro mult_mono) simp_all
  have Lp: "0 \<le> L1" "0 \<le> L2" "0 \<le> U1" "0 \<le> U2"
    using LU x y by (auto simp: approx_def)
  have rp0: "0 \<le> L1 * x" "0 \<le> L2 * y" using Lp pos by simp_all
  have rp: "0 \<le> r" "0 \<le> s" using rp0 rr by linarith+
  have l: "(L1 * L2) * (x * y) \<le> r * s"
  proof -
    have "(L1 * x) * (L2 * y) \<le> r * s" using rr rp rp0 by (intro mult_mono) simp_all
    then show ?thesis by (simp add: mult_ac)
  qed
  have h: "r * s \<le> (U1 * U2) * (x * y)"
  proof -
    have "0 \<le> U1 * x" using Lp pos by simp
    then have "r * s \<le> (U1 * x) * (U2 * y)" using rr rp by (intro mult_mono) simp_all
    then show ?thesis by (simp add: mult_ac)
  qed
  have "1/4 * (1 / 2 ^ 100) \<le> (L1 * L2) * (lx * ly)"
  proof -
    have "1/2 * (1/2) \<le> L1 * L2" using LU by (intro mult_mono) simp_all
    then have "1/4 \<le> L1 * L2" by simp
    then show ?thesis using range(1) pos by (intro mult_mono) simp_all
  qed
  also have "\<dots> \<le> (L1 * L2) * (x * y)" using lo Lp by (intro mult_left_mono) simp_all
  finally have r1: "1 / 2 ^ 200 \<le> (L1 * L2) * (x * y)" by simp
  have "(U1 * U2) * (x * y) \<le> (U1 * U2) * (ux * uy)"
    using hi Lp by (intro mult_left_mono) simp_all
  also have "\<dots> \<le> (2 * 2) * 2 ^ 100"
  proof (intro mult_mono)
    show "0 \<le> ux * uy" using pos b by (intro mult_nonneg_nonneg) linarith+
  qed (use LU range(2) Lp in simp_all)
  finally have r2: "(U1 * U2) * (x * y) \<le> 2 ^ 200" by simp
  from fl_approx [OF xy l h r1 r2 L3(2) U3(1)]
  obtain t where "fl (r * s) = Fin t" "L3 * (x * y) \<le> t" "t \<le> U3 * (x * y)" by blast
  with lo hi pos L3 U3 show ?thesis by (auto simp: approx_def)
qed

lemma approx_exact: "0 < lo \<Longrightarrow> lo \<le> y \<Longrightarrow> y \<le> hi \<Longrightarrow> approx y y 1 1 lo hi"
  by (simp add: approx_def)

lemma add_step:
  assumes x: "approx x r L U lx ux"
    and range: "ux + 2 \<le> 2 ^ 100"
    and L3: "1/2 \<le> L3" "L3 \<le> (1 - 1 / 2 ^ 53) * L" "L3 \<le> 1"
    and U3: "(1 + 1 / 2 ^ 53) * U \<le> U3" "U3 \<le> 2" "1 \<le> U3"
  shows "\<exists>t. fadd (Fin r) (Fin 2) = Fin t \<and> approx (x + 2) t L3 U3 (lx + 2) (ux + 2)"
proof -
  from x have pos: "0 < x" "0 < lx" and b: "lx \<le> x" "x \<le> ux"
    and rr: "L * x \<le> r" "r \<le> U * x" and LU: "1/2 \<le> L" "L \<le> 1" "1 \<le> U" "U \<le> 2"
    by (auto simp: approx_def)
  have z: "0 < x + 2" using pos by simp
  have l: "L * (x + 2) \<le> r + 2" using rr LU by (simp add: algebra_simps)
  have h: "r + 2 \<le> U * (x + 2)" using rr LU by (simp add: algebra_simps)
  have "1 / 2 ^ 200 \<le> (1/2) * (2::real)" by simp
  also have "\<dots> \<le> L * (x + 2)" using LU pos by (intro mult_mono) simp_all
  finally have r1: "1 / 2 ^ 200 \<le> L * (x + 2)" .
  have "U * (x + 2) \<le> 2 * 2 ^ 100" using LU b range pos by (intro mult_mono) simp_all
  then have r2: "U * (x + 2) \<le> 2 ^ 200" by simp
  from fl_approx [OF z l h r1 r2 L3(2) U3(1)]
  obtain t where "fl (r + 2) = Fin t" "L3 * (x + 2) \<le> t" "t \<le> U3 * (x + 2)" by blast
  with pos b L3 U3 show ?thesis by (auto simp: approx_def)
qed

lemma int_truediv_rel:
  assumes "1 \<le> a" "a \<le> 1000000" "1 \<le> d" "d \<le> 1000000"
  shows "\<exists>q. int_truediv a d = Inr (Fin q) \<and>
           approx (real_of_int a / real_of_int d) q (1 - 1 / 2 ^ 53) (1 + 1 / 2 ^ 53)
             (1 / 1000000) 1000000"
proof -
  let ?z = "real_of_int a / real_of_int d"
  have lo: "1 / 1000000 \<le> ?z"
  proof -
    have "1 / 1000000 \<le> 1 / real_of_int d" using assms by (simp add: field_simps)
    also have "\<dots> \<le> ?z" using assms by (intro divide_right_mono) simp_all
    finally show ?thesis .
  qed
  have hi: "?z \<le> 1000000"
  proof -
    have "?z \<le> real_of_int a / 1" using assms by (intro divide_left_mono) simp_all
    also have "\<dots> \<le> 1000000" using assms by simp
    finally show ?thesis .
  qed
  have z: "0 < ?z" using lo by linarith
  from fl_approx [of ?z 1 ?z 1 "1 - 1 / 2 ^ 53" "1 + 1 / 2 ^ 53"] z lo hi
  obtain t where "fl ?z = Fin t" "(1 - 1 / 2 ^ 53) * ?z \<le> t" "t \<le> (1 + 1 / 2 ^ 53) * ?z"
    by force
  with lo hi assms show ?thesis by (auto simp: int_truediv_def approx_def)
qed

lemma int_to_float_rel:
  assumes "1 \<le> p" "p \<le> 1000000"
  shows "\<exists>w. int_to_float p = Inr (Fin w) \<and>
           approx (real_of_int p) w (1 - 1 / 2 ^ 53) (1 + 1 / 2 ^ 53) 1 1000000"
proof -
  let ?z = "real_of_int p"
  have lo: "1 \<le> ?z" and hi: "?z \<le> 1000000" using assms by simp_all
  have z: "0 < ?z" using lo by linarith
  from fl_approx [of ?z 1 ?z 1 "1 - 1 / 2 ^ 53" "1 + 1 / 2 ^ 53"] z lo hi
  obtain t where "fl ?z = Fin t" "(1 - 1 / 2 ^ 53) * ?z \<le> t" "t \<le> (1 + 1 / 2 ^ 53) * ?z"
    by force
  with lo hi show ?thesis by (auto simp: int_to_float_def approx_def)
qed

lemma constant_quotient_rel:
  "approx (11/25) (7926335344172073 / 2 ^ 54) (1 - 1 / 2 ^ 53) (1 + 1 / 2 ^ 53) (11/25) (11/25)"
  by (simp add: approx_def)

lemma chart_value_range: "1/2 \<le> chart_value a d \<and> chart_value a d \<le> 2"
  by (cases a; cases d; simp add: chart_value_def)

lemma spec_stab_range: "1 \<le> spec_stab a m \<and> spec_stab a m \<le> 3/2"
  by (simp add: spec_stab_def)

text \<open>
  For stats between 1 and 1000000 and a variance in [0.5, 1] the double-precision
  product is finite and within 1/100 of the exact product.
\<close>

lemma product_close:
  assumes a: "1 \<le> attack attacker" "attack attacker \<le> 1000000"
    and d: "1 \<le> defense defender" "defense defender \<le> 1000000"
    and p: "1 \<le> power move" "power move \<le> 1000000"
    and f: "1/2 \<le> variance" "variance \<le> 1"
  shows "\<exists>b v. spec_base_double attacker defender move = Inr b \<and>
           spec_product_double b (chart_value (move_type move) (pokemon_type defender))
             variance (spec_stab attacker move) = Fin v \<and>
           0 < v \<and> \<bar>v - spec_product attacker defender move variance\<bar> \<le> 1/100"
proof -
  let ?A = "real_of_int (attack attacker) / real_of_int (defense defender)"
  let ?P = "real_of_int (power move)"
  let ?e = "chart_value (move_type move) (pokemon_type defender)"
  let ?s = "spec_stab attacker move"
  from int_truediv_rel [OF a d] obtain q where
    q: "int_truediv (attack attacker) (defense defender) = Inr (Fin q)"
    and qa: "approx ?A q (1 - 1 / 2 ^ 53) (1 + 1 / 2 ^ 53) (1 / 1000000) 1000000" by blast
  from int_to_float_rel [OF p] obtain w where
    w: "int_to_float (power move) = Inr (Fin w)"
    and wa: "approx ?P w (1 - 1 / 2 ^ 53) (1 + 1 / 2 ^ 53) 1 1000000" by blast
  define cq :: real where "cq = 7926335344172073 / 2 ^ 54"
  have cqd: "int_truediv 110 250 = Inr (Fin cq)"
    unfolding cq_def by (rule constant_quotient)
  have cqa: "approx (11/25) cq (1 - 1 / 2 ^ 53) (1 + 1 / 2 ^ 53) (11/25) (11/25)"
    unfolding cq_def by (rule constant_quotient_rel)
  from mul_step [OF cqa qa, of "1 - 4 / 2 ^ 53" "1 + 4 / 2 ^ 53"]
  obtain t1 where t1: "fmul (Fin cq) (Fin q) = Fin t1"
    and t1a: "approx (11/25 * ?A) t1 (1 - 4 / 2 ^ 53) (1 + 4 / 2 ^ 53)
                (11/25 * (1 / 1000000)) (11/25 * 1000000)"
    by force
  from mul_step [OF t1a wa, of "1 - 7 / 2 ^ 53" "1 + 7 / 2 ^ 53"]
  obtain t2 where t2: "fmul (Fin t1) (Fin w) = Fin t2"
    and t2a: "approx (11/25 * ?A * ?P) t2 (1 - 7 / 2 ^ 53) (1 + 7 / 2 ^ 53)
                (11/25 * (1 / 1000000) * 1) (11/25 * 1000000 * 1000000)"
    by force
  from add_step [OF t2a, of "1 - 9 / 2 ^ 53" "1 + 9 / 2 ^ 53"]
  obtain b where b: "fadd (Fin t2) (Fin 2) = Fin b"
    and ba: "approx (11/25 * ?A * ?P + 2) b (1 - 9 / 2 ^ 53) (1 + 9 / 2 ^ 53)
               (11/25 * (1 / 1000000) * 1 + 2) (11/25 * 1000000 * 1000000 + 2)"
    by force
  have ea: "approx ?e ?e 1 1 (1/2) 2"
    using chart_value_range [of "move_type move" "pokemon_type defender"]
    by (intro approx_exact) simp_all
  have fa: "approx variance variance 1 1 (1/2) 1" using f by (intro approx_exact) simp_all
  have sa: "approx ?s ?s 1 1 1 (3/2)"
    using spec_stab_range [of attacker move] by (intro approx_exact) simp_all
  from mul_step [OF ba ea, of "1 - 11 / 2 ^ 53" "1 + 11 / 2 ^ 53"]
  obtain m1 where m1: "fmul (Fin b) (Fin ?e) = Fin m1"
    and m1a: "approx ((11/25 * ?A * ?P + 2) * ?e) m1 (1 - 11 / 2 ^ 53) (1 + 11 / 2 ^ 53)
               ((11/25 * (1 / 1000000) * 1 + 2) * (1/2)) ((11/25 * 1000000 * 1000000 + 2) * 2)"
    by force
  from mul_step [OF m1a fa, of "1 - 13 / 2 ^ 53" "1 + 13 / 2 ^ 53"]
  obtain m2 where m2: "fmul (Fin m1) (Fin variance) = Fin m2"
    and m2a: "approx ((11/25 * ?A * ?P + 2) * ?e * variance) m2
               (1 - 13 / 2 ^ 53) (1 + 13 / 2 ^ 53)
               ((11/25 * (1 / 1000000) * 1 + 2) * (1/2) * (1/2))
               ((11/25 * 1000000 * 1000000 + 2) * 2 * 1)"
    by force
  from mul_step [OF m2a sa, of "1 - 15 / 2 ^ 53" "1 + 15 / 2 ^ 53"]
  obtain m3 where m3: "fmul (Fin m2) (Fin ?s) = Fin m3"
    and m3a: "approx ((11/25 * ?A * ?P + 2) * ?e * variance * ?s) m3
               (1 - 15 / 2 ^ 53) (1 + 15 / 2 ^ 53)
               ((11/25 * (1 / 1000000) * 1 + 2) * (1/2) * (1/2) * 1)
               ((11/25 * 1000000 * 1000000 + 2) * 2 * 1 * (3/2))"
    by force
  define E where "E = (11/25 * ?A * ?P + 2) * ?e * variance * ?s"
  have E: "spec_product attacker defender move variance = E"
    by (simp add: spec_product_def spec_base_def E_def mult_ac)
  from m3a have Ep: "0 < E" and Eh: "E \<le> 2 ^ 41"
    and lo: "(1 - 15 / 2 ^ 53) * E \<le> m3" and hi: "m3 \<le> (1 + 15 / 2 ^ 53) * E"
    unfolding E_def [symmetric] by (auto simp: approx_def)
  have e1: "(1 - 15 / 2 ^ 53) * E = E - 15 / 2 ^ 53 * E"
    and e2: "(1 + 15 / 2 ^ 53) * E = E + 15 / 2 ^ 53 * E"
    by (simp_all only: left_diff_distrib distrib_right mult_1)
  have "\<bar>m3 - E\<bar> \<le> 15 / 2 ^ 53 * E"
    using lo hi unfolding e1 e2 by linarith
  also have "\<dots> \<le> 15 / 2 ^ 53 * 2 ^ 41" using Eh by (intro mult_left_mono) simp_all
  also have "\<dots> \<le> 1/100" by simp
  finally have close: "\<bar>m3 - E\<bar> \<le> 1/100" .
  have "0 < m3"
  proof -
    have "0 < (1 - 15 / 2 ^ 53) * E" using Ep by (intro mult_pos_pos) simp_all
    with lo show ?thesis by linarith
  qed
  moreover have "spec_base_double attacker defender move = Inr (Fin b)"
    by (simp add: spec_base_double_def cqd float_two q w t1 t2 b bind_err_def
          del: fmul.simps fadd.simps)
  moreover have "spec_product_double (Fin b) ?e variance ?s = Fin m3"
    by (simp add: spec_product_double_def m1 m2 m3 del: fmul.simps)
  ultimately show ?thesis using close E by auto
qed

subsection \<open>Damage formula\<close>

lemma floor_close:
  fixes v e :: real
  assumes "\<bar>v - e\<bar> \<le> 1/100"
  shows "\<bar>max 1 \<lfloor>v\<rfloor> - max 1 \<lfloor>e\<rfloor>\<bar> \<le> (1::int)"
proof -
  have "v \<le> e + 1" "e \<le> v + 1" using assms by linarith+
  then have "\<lfloor>v\<rfloor> \<le> \<lfloor>e + 1\<rfloor>" "\<lfloor>e\<rfloor> \<le> \<lfloor>v + 1\<rfloor>" by (simp_all only: floor_mono)
  then have "\<lfloor>v\<rfloor> \<le> \<lfloor>e\<rfloor> + 1" "\<lfloor>e\<rfloor> \<le> \<lfloor>v\<rfloor> + 1" by simp_all
  then show ?thesis by linarith
qed

text \<open>
  C1 (as stated): a hit of a move with positive power deals the floor of
  base * stab * effectiveness * variance, clamped to a minimum of 1. Refuted: the
  code evaluates the formula in double precision, and for a Grass attacker of attack
  80 using Solar Beam (power 120) on a Water defender of defense 88 with variance 1.0
  the rounded product lies just below 150 and is truncated to 149, where the formula
  gives exactly 150.
\<close>

theorem calculate_damage_counterexample:
  "power solar_beam > 0 \<and> \<not> (1/2) > accuracy solar_beam \<and>
   calculate_damage grass_attacker sturdy_water_defender solar_beam (1/2) 1 = Inr 149 \<and>
   spec_damage grass_attacker sturdy_water_defender solar_beam 1 = 150"
  by (simp add: damage_eval example_defs new_Pokemon_def new_Move_def spec_damage_def
        spec_product_def spec_base_def spec_stab_def)

text \<open>
  C1 (amended): a hit of a move with positive power deals the result of the formula
  evaluated in double precision, in the order base, effectiveness, variance, same-type
  bonus, truncated and clamped to a minimum of 1; the resolution raises instead when
  the defense is 0 or a value leaves the range of the doubles. For attack, defense and
  power between 1 and 1000000 and a variance between 0.5 and 1 it returns a damage of
  at least 1 that differs from the exact floor of base * stab * effectiveness *
  variance, clamped to 1, by at most 1.
\<close>

theorem calculate_damage_double_precision:
  assumes "power move > 0" and "\<not> roll > accuracy move"
  shows "calculate_damage attacker defender move roll factor
           = spec_damage_double attacker defender move factor \<and>
         (1 \<le> attack attacker \<and> attack attacker \<le> 1000000 \<and>
          1 \<le> defense defender \<and> defense defender \<le> 1000000 \<and>
          power move \<le> 1000000 \<and> 1/2 \<le> factor \<and> factor \<le> 1 \<longrightarrow>
            (\<exists>dmg. calculate_damage attacker defender move roll factor = Inr dmg \<and> 1 \<le> dmg \<and>
               \<bar>dmg - spec_damage attacker defender move factor\<bar> \<le> 1))"
proof (intro conjI impI)
  from assms have p: "power move \<noteq> 0" by simp
  show eq: "calculate_damage attacker defender move roll factor
              = spec_damage_double attacker defender move factor"
    using p assms(2) by (rule calculate_damage_hit)
  assume b: "1 \<le> attack attacker \<and> attack attacker \<le> 1000000 \<and>
          1 \<le> defense defender \<and> defense defender \<le> 1000000 \<and>
          power move \<le> 1000000 \<and> 1/2 \<le> factor \<and> factor \<le> 1"
  from assms(1) have p1: "1 \<le> power move" by simp
  from product_close [of attacker defender move factor] b p1
  obtain base v where base: "spec_base_double attacker defender move = Inr base"
    and v: "spec_product_double base (chart_value (move_type move) (pokemon_type defender))
              factor (spec_stab attacker move) = Fin v"
    and vp: "0 < v" and close: "\<bar>v - spec_product attacker defender move factor\<bar> \<le> 1/100"
    by blast
  have r: "spec_damage_double attacker defender move factor = Inr (max 1 \<lfloor>v\<rfloor>)"
    using vp by (simp add: spec_damage_double_def base v bind_err_def py_int_def)
  have "\<bar>max 1 \<lfloor>v\<rfloor> - spec_damage attacker defender move factor\<bar> \<le> 1"
    unfolding spec_damage_def using close by (rule floor_close)
  with r eq show "\<exists>dmg. calculate_damage attacker defender move roll factor = Inr dmg \<and> 1 \<le> dmg \<and>
               \<bar>dmg - spec_damage attacker defender move factor\<bar> \<le> 1"
    by simp
qed

theorem calculate_damage_double_precision_witness:
  "power hydro_pump > 0 \<and> \<not> (1/2) > accuracy hydro_pump \<and>
   1 \<le> attack water_attacker \<and> attack water_attacker \<le> 1000000 \<and>
   1 \<le> defense fire_attacker \<and> defense fire_attacker \<le> 1000000 \<and>
   power hydro_pump \<le> 1000000 \<and>
   move_type hydro_pump = pokemon_type water_attacker \<and>
   chart_value (move_type hydro_pump) (pokemon_type fire_attacker) = 2 \<and>
   calculate_damage water_attacker fire_attacker hydro_pump (1/2) (7/8) = Inr 141 \<and>
   spec_damage_double water_attacker fire_attacker hydro_pump (7/8) = Inr 141 \<and>
   spec_damage water_attacker fire_attacker hydro_pump (7/8) = 141"
proof -
  have h: "power hydro_pump > 0" "\<not> (1/2) > accuracy hydro_pump"
    "1 \<le> attack water_attacker" "attack water_attacker \<le> 1000000"
    "1 \<le> defense fire_attacker" "defense fire_attacker \<le> 1000000"
    "power hydro_pump \<le> 1000000"
    "move_type hydro_pump = pokemon_type water_attacker"
    "chart_value (move_type hydro_pump) (pokemon_type fire_attacker) = 2"
    by (simp_all add: example_defs new_Pokemon_def new_Move_def literal_values chart_value_def)
  have c: "calculate_damage water_attacker fire_attacker hydro_pump (1/2) (7/8) = Inr 141"
    by (simp add: damage_eval example_defs new_Pokemon_def new_Move_def)
  have s: "spec_damage water_attacker fire_attacker hydro_pump (7/8) = 141"
    by (simp add: example_defs new_Pokemon_def new_Move_def spec_damage_def
        spec_product_def spec_base_def spec_stab_def chart_value_def)
  from calculate_damage_double_precision [OF h(1,2), of water_attacker fire_attacker "7/8"] c
  have "spec_damage_double water_attacker fire_attacker hydro_pump (7/8) = Inr 141" by simp
  with h c s show ?thesis by simp
qed

end
